theory Spec2Isabelle
  imports Main
begin

section \<open>Values of the host language and of the store\<close>

text \<open>
  The catalog page keeps its data in a realtime JSON store. A stored leaf is a boolean, a
  number or a string; an absent key reads as \<open>undefined\<close>/\<open>null\<close> and is
  \<open>None\<close> here. Timestamps and counters are integers (milliseconds, head counts), so
  numbers are \<open>int\<close>; fractional and non-finite numbers are outside the model.
  A JSON object is a finite map from field names to values.
\<close>

datatype jsval = JBool bool | JNum int | JStr string

type_synonym jsobj = "string \<rightharpoonup> jsval"

text \<open>
  Three primitives of the JavaScript runtime are taken as parameters, since their tables
  are not part of the repository: \<open>Date.parse\<close> and \<open>Number\<close> on strings
  (\<open>None\<close> stands for \<open>NaN\<close>), and \<open>String.prototype.localeCompare\<close>.
\<close>

record js_host =
  Date_parse :: "string \<Rightarrow> int option"
  Number_of_string :: "string \<Rightarrow> int option"
  localeCompare :: "string \<Rightarrow> string \<Rightarrow> int"

text \<open>Truthiness of a possibly absent value (\<open>!!v\<close>).\<close>

fun truthy :: "jsval option \<Rightarrow> bool" where
  "truthy None = False"
| "truthy (Some (JBool b)) = b"
| "truthy (Some (JNum n)) = (n \<noteq> 0)"
| "truthy (Some (JStr s)) = (s \<noteq> [])"

text \<open>\<open>Number(v)\<close>, with \<open>None\<close> for \<open>NaN\<close>, and \<open>Number(v) || 0\<close>.\<close>

fun js_Number :: "js_host \<Rightarrow> jsval option \<Rightarrow> int option" where
  "js_Number h None = None"
| "js_Number h (Some (JBool b)) = Some (if b then 1 else 0)"
| "js_Number h (Some (JNum n)) = Some n"
| "js_Number h (Some (JStr s)) = Number_of_string h s"

definition number_or0 :: "js_host \<Rightarrow> jsval option \<Rightarrow> int" where
  "number_or0 h v = (case js_Number h v of None \<Rightarrow> 0 | Some n \<Rightarrow> n)"

text \<open>
  \<open>value.trim()\<close> is non-empty when some character is not white space. Strings are
  byte strings here, so the test is on ASCII white space; on a string of other white
  space \<open>Date.parse\<close> yields \<open>NaN\<close> and \<open>parseTimeToMs\<close> returns 0 either way.
\<close>

definition js_space :: "char \<Rightarrow> bool" where
  "js_space c = (c \<in> set [CHR 0x09, CHR 0x0A, CHR 0x0B, CHR 0x0C, CHR 0x0D, CHR 0x20])"

definition trim_nonempty :: "string \<Rightarrow> bool" where
  "trim_nonempty s = (filter (\<lambda>c. \<not> js_space c) s \<noteq> [])"

section \<open>Constants of the catalog page\<close>

definition RSVP_REGISTERED :: string where "RSVP_REGISTERED = ''registered''"
definition RSVP_WAITLISTED :: string where "RSVP_WAITLISTED = ''waitlisted''"
definition RSVP_CANCELLED :: string where "RSVP_CANCELLED = ''cancelled''"

definition DEFAULT_RSVP_CONFIG :: jsobj where
  "DEFAULT_RSVP_CONFIG =
     [''rsvpOpen'' \<mapsto> JBool True, ''capacity'' \<mapsto> JNum 100,
      ''bookedCount'' \<mapsto> JNum 0, ''waitlistCount'' \<mapsto> JNum 0]"

definition MAX_SAFE_INTEGER :: int where
  "MAX_SAFE_INTEGER = 9007199254740991"

section \<open>Rooms, windows and the lifecycle state\<close>

text \<open>
  An entry of the room's audience index, at \<open>rooms/<roomId>/audience_index/<userId>\<close>.
  \<open>firstSeen\<close> is optional because the code reads it with \<open>val()?.firstSeen\<close>.
\<close>

record index_entry =
  ie_userId :: string
  ie_username :: string
  ie_email :: string
  ie_phone :: string
  ie_role :: string
  ie_firstSeen :: "int option"
  ie_lastSeen :: int
  ie_lastSessionKey :: string

text \<open>
  A room as the page holds it in its \<open>rooms\<close> list. The display-only fields
  \<open>audienceCount\<close> and \<open>rsvpConfig\<close> of an entry are read by no function below and
  are left out.
\<close>

record room =
  room_id :: string
  isLive :: bool
  audienceIndex :: "string \<rightharpoonup> index_entry"
  eventConfig :: jsobj

record room_window =
  startTimeMs :: int
  endTimeMs :: int

datatype room_state = Upcoming | Current | Ended

fun parseTimeToMs :: "js_host \<Rightarrow> jsval option \<Rightarrow> int" where
  "parseTimeToMs h (Some (JNum n)) = n"
| "parseTimeToMs h (Some (JStr s)) =
     (if trim_nonempty s
      then (case Date_parse h s of None \<Rightarrow> 0 | Some parsed \<Rightarrow> parsed)
      else 0)"
| "parseTimeToMs h v = 0"

text \<open>\<open>a ?? b\<close>: the left operand unless it is absent.\<close>

definition nullish :: "jsval option \<Rightarrow> jsval option \<Rightarrow> jsval option" where
  "nullish a b = (case a of None \<Rightarrow> b | Some v \<Rightarrow> Some v)"

definition getRoomWindow :: "js_host \<Rightarrow> room \<Rightarrow> room_window" where
  "getRoomWindow h r =
     (let cfg = eventConfig r in
      \<lparr> startTimeMs = parseTimeToMs h (nullish (cfg ''startTimeMs'') (cfg ''startTime'')),
        endTimeMs = parseTimeToMs h (nullish (cfg ''endTimeMs'') (cfg ''endTime'')) \<rparr>)"

definition getRoomState :: "js_host \<Rightarrow> room \<Rightarrow> int \<Rightarrow> room_state" where
  "getRoomState h r nowMs =
     (let w = getRoomWindow h r in
      if startTimeMs w \<noteq> 0 \<and> nowMs < startTimeMs w then Upcoming
      else if endTimeMs w \<noteq> 0 \<and> nowMs \<ge> endTimeMs w then Ended
      else if isLive r then Current
      else if startTimeMs w \<noteq> 0 \<and> nowMs \<ge> startTimeMs w
              \<and> (endTimeMs w = 0 \<or> nowMs < endTimeMs w) then Current
      else Upcoming)"

definition roomStateRank :: "room_state \<Rightarrow> int" where
  "roomStateRank s = (if s = Current then 0 else if s = Upcoming then 1 else 2)"

definition toLowerChar :: "char \<Rightarrow> char" where
  "toLowerChar c =
     (let n = (of_char c :: nat) in if 65 \<le> n \<and> n \<le> 90 then char_of (n + 32) else c)"

text \<open>
  \<open>String(status || '').toLowerCase()\<close>. A status is a string, the empty string
  when the field is absent. Lower-casing is bytewise on A to Z: the only other character
  that JavaScript maps to an ASCII letter is the Kelvin sign (to k), and neither status
  word contains a k, so the test below decides as the source does.
\<close>

definition isActiveRsvpStatus :: "string \<Rightarrow> bool" where
  "isActiveRsvpStatus status =
     (let normalized = map toLowerChar status in
      normalized = RSVP_REGISTERED \<or> normalized = RSVP_WAITLISTED)"

section \<open>The signed-in profile\<close>

record profile =
  p_role :: string
  p_userId :: string
  p_phone :: string
  p_phoneE164 :: string
  p_email :: string
  p_unregistered :: bool
  p_displayName :: string
  p_lastRoomId :: string
  p_firebaseUid :: string

text \<open>\<open>a || b\<close> on strings: the empty string is falsy.\<close>

definition or_else :: "string \<Rightarrow> string \<Rightarrow> string" where
  "or_else a b = (if a \<noteq> [] then a else b)"

definition is_digit :: "char \<Rightarrow> bool" where
  "is_digit c = (let n = (of_char c :: nat) in 48 \<le> n \<and> n \<le> 57)"

definition sanitizePhone :: "string \<Rightarrow> string" where
  "sanitizePhone v = (let d = filter is_digit v in drop (length d - 10) d)"

definition toE164India :: "string \<Rightarrow> string" where
  "toE164India v = (let digits = sanitizePhone v in if digits \<noteq> [] then ''+91'' @ digits else [])"

definition profileUserId :: "profile option \<Rightarrow> string" where
  "profileUserId pr =
     (case pr of None \<Rightarrow> [] | Some p \<Rightarrow> or_else (p_userId p) (or_else (p_firebaseUid p) []))"

definition rsvpOwnerId :: "profile option \<Rightarrow> string" where
  "rsvpOwnerId pr =
     (case pr of None \<Rightarrow> []
      | Some p \<Rightarrow>
          or_else (p_firebaseUid p)
            (or_else (p_userId p) (if p_phone p \<noteq> [] then ''USER-'' @ p_phone p else [])))"

section \<open>The store\<close>

text \<open>The room-side and the user-side RSVP record, as \<open>handleRegisterForSelectedRoom\<close> writes them.\<close>

record room_rsvp =
  rr_status :: string
  rr_createdAt :: int
  rr_phone :: string
  rr_displayName :: string
  rr_userId :: string

record user_rsvp =
  ur_status :: string
  ur_roomId :: string
  ur_startTimeMs :: int
  ur_endTimeMs :: int
  ur_updatedAt :: int

text \<open>The session record under \<open>audience_data/<roomId>/<key>\<close>.\<close>

record audience_rec =
  ad_email :: string
  ad_phone :: string
  ad_role :: string
  ad_userId :: string
  ad_username :: string
  ad_joinedAt :: int
  ad_isMuted :: bool
  ad_isBidBanned :: bool
  ad_isKicked :: bool

record unregistered_rec =
  un_phone :: string
  un_email :: string
  un_timestamp :: int
  un_source :: string

record user_doc =
  ud_displayName :: string
  ud_username :: string
  ud_role :: string
  ud_phone :: string
  ud_phoneE164 :: string
  ud_email :: string
  ud_lastLoginAt :: int
  ud_lastRoomId :: string

text \<open>
  The part of the store the handlers touch, one component per path pattern:
  \<^item> \<open>rsvp_config\<close>: \<open>rooms/<roomId>/rsvp_config\<close>;
  \<^item> \<open>room_rsvps\<close>: \<open>rooms/<roomId>/rsvps/<ownerId>\<close>, keyed by (roomId, ownerId);
  \<^item> \<open>user_rsvps\<close>: \<open>users/<ownerId>/rsvps/<roomId>\<close>, keyed by (ownerId, roomId);
  \<^item> \<open>audience_index\<close>: \<open>rooms/<roomId>/audience_index/<userId>\<close>;
  \<^item> \<open>audience_data\<close>: \<open>audience_data/<roomId>/<key>\<close>;
  \<^item> \<open>unregistered\<close>: \<open>rooms/<roomId>/unregistered/<phone>\<close>;
  \<^item> \<open>users\<close>: the profile fields of \<open>users/<uid>\<close>;
  \<^item> \<open>room_isLive\<close>, \<open>event_config\<close>: \<open>rooms/<roomId>/isLive\<close> and
    \<open>rooms/<roomId>/event_config\<close>.
\<close>

record database =
  rsvp_config :: "string \<rightharpoonup> jsobj"
  room_rsvps :: "string \<times> string \<rightharpoonup> room_rsvp"
  user_rsvps :: "string \<times> string \<rightharpoonup> user_rsvp"
  audience_index :: "string \<times> string \<rightharpoonup> index_entry"
  audience_data :: "string \<times> string \<rightharpoonup> audience_rec"
  unregistered :: "string \<times> string \<rightharpoonup> unregistered_rec"
  users :: "string \<rightharpoonup> user_doc"
  room_isLive :: "string \<rightharpoonup> jsval"
  event_config :: "string \<rightharpoonup> jsobj"

section \<open>The capacity ledger\<close>

text \<open>
  The callback that \<open>handleRegisterForSelectedRoom\<close> passes to \<open>runTransaction\<close>.
  \<open>loadConfig\<close> is the object spread of the defaults and the current value;
  the three counters are read with \<open>Number(...) || 0\<close>. The callback returns
  \<open>None\<close> when it aborts (\<open>return;\<close>), and otherwise the status it assigned
  together with the config to store.
\<close>

definition loadConfig :: "jsobj option \<Rightarrow> jsobj" where
  "loadConfig current =
     DEFAULT_RSVP_CONFIG ++ (case current of None \<Rightarrow> Map.empty | Some c \<Rightarrow> c)"

definition capacityOf :: "js_host \<Rightarrow> jsobj \<Rightarrow> int" where
  "capacityOf h cfg = number_or0 h (cfg ''capacity'')"

definition bookedCountOf :: "js_host \<Rightarrow> jsobj \<Rightarrow> int" where
  "bookedCountOf h cfg = number_or0 h (cfg ''bookedCount'')"

definition waitlistCountOf :: "js_host \<Rightarrow> jsobj \<Rightarrow> int" where
  "waitlistCountOf h cfg = number_or0 h (cfg ''waitlistCount'')"

definition rsvpTransaction :: "js_host \<Rightarrow> jsobj option \<Rightarrow> (string \<times> jsobj) option" where
  "rsvpTransaction h current =
     (let cfg = loadConfig current in
      if cfg ''rsvpOpen'' = Some (JBool False) then None
      else
        let capacity = capacityOf h cfg;
            bookedCount = bookedCountOf h cfg;
            waitlistCount = waitlistCountOf h cfg
        in if capacity > 0 \<and> bookedCount \<ge> capacity
           then Some (RSVP_WAITLISTED, cfg(''waitlistCount'' \<mapsto> JNum (waitlistCount + 1)))
           else Some (RSVP_REGISTERED, cfg(''bookedCount'' \<mapsto> JNum (bookedCount + 1))))"

text \<open>
  The store's transactional update, by the contract of the store's client library: the
  library reruns the callback until a run is committed against the value it was given, or
  the callback aborts. What one client sees once the retries are over is the callback
  applied to the stored value in one step. The result is the status assigned by the
  committed run (\<open>None\<close> when the callback aborted) and the value stored afterwards.
\<close>

definition runTransaction ::
  "(jsobj option \<Rightarrow> (string \<times> jsobj) option) \<Rightarrow> jsobj option \<Rightarrow> string option \<times> jsobj option" where
  "runTransaction f current =
     (case f current of
        None \<Rightarrow> (None, current)
      | Some (assigned, cfg) \<Rightarrow> (Some assigned, Some cfg))"

text \<open>
  \<open>n\<close> register transactions against one room's config, in the order in which the
  store commits them; the list holds each call's assigned status.
\<close>

fun registerCalls :: "js_host \<Rightarrow> nat \<Rightarrow> jsobj option \<Rightarrow> string option list \<times> jsobj option" where
  "registerCalls h 0 current = ([], current)"
| "registerCalls h (Suc n) current =
     (let (assigned, next) = runTransaction (rsvpTransaction h) current;
          (rest, final) = registerCalls h n next
      in (assigned # rest, final))"

section \<open>Registration\<close>

text \<open>
  What a run of \<open>handleRegisterForSelectedRoom\<close> reads from outside: the two clock
  readings (the lifecycle guard and the payload timestamp) and which of its three store
  calls, if any, fails (1: the read of the existing record, 2: the transaction, 3: the
  multi-key update).
\<close>

record register_env =
  reg_now_guard :: int
  reg_now_write :: int
  reg_fault :: "nat option"

text \<open>
  The message a call ends with: nothing (no profile or no selected room), the session
  error, "Registration closed" (the room is not upcoming), "Already <status>", "RSVP is
  currently closed" (the refusal), the registered/waitlisted notice, "Failed to register".
  The setters of the page's view state (error, notice, busy flag, the selected room and
  the local copy of the caller's RSVP records) are represented by this outcome only; the
  store is passed in and returned.
\<close>

datatype register_outcome =
    RegNoOp
  | SessionUnresolved
  | RegistrationClosed
  | AlreadyActive string
  | RsvpClosed
  | Assigned string
  | RegisterFailed

text \<open>
  The second half of \<open>handleRegisterForSelectedRoom\<close>, from the transaction on:
  the ledger transaction on \<open>rooms/<roomId>/rsvp_config\<close>, then both RSVP records in
  one multi-key \<open>update\<close>, which writes all its paths or none.
\<close>

definition registerThroughLedger ::
  "js_host \<Rightarrow> register_env \<Rightarrow> profile \<Rightarrow> room \<Rightarrow> string \<Rightarrow> database
     \<Rightarrow> register_outcome \<times> database" where
  "registerThroughLedger h env p r owner db =
     (let roomId = room_id r in
      if reg_fault env = Some 2 then (RegisterFailed, db)
      else
        case runTransaction (rsvpTransaction h) (rsvp_config db roomId) of
          (None, stored) \<Rightarrow> (RsvpClosed, db)
        | (Some assignedStatus, stored) \<Rightarrow>
            let db1 = db\<lparr>rsvp_config := (rsvp_config db)(roomId := stored)\<rparr> in
            if assignedStatus = [] then (RsvpClosed, db1)
            else
              let now = reg_now_write env;
                  w = getRoomWindow h r;
                  roomRsvpPayload =
                    \<lparr> rr_status = assignedStatus, rr_createdAt = now,
                      rr_phone = p_phone p, rr_displayName = p_displayName p,
                      rr_userId = owner \<rparr>;
                  userRsvpPayload =
                    \<lparr> ur_status = assignedStatus, ur_roomId = roomId,
                      ur_startTimeMs = startTimeMs w, ur_endTimeMs = endTimeMs w,
                      ur_updatedAt = now \<rparr>
              in if reg_fault env = Some 3 then (RegisterFailed, db1)
                 else
                   (Assigned assignedStatus,
                    db1\<lparr>room_rsvps := (room_rsvps db1)((roomId, owner) \<mapsto> roomRsvpPayload),
                        user_rsvps := (user_rsvps db1)((owner, roomId) \<mapsto> userRsvpPayload)\<rparr>))"

definition handleRegisterForSelectedRoom ::
  "js_host \<Rightarrow> register_env \<Rightarrow> profile option \<Rightarrow> room option \<Rightarrow> database
     \<Rightarrow> register_outcome \<times> database" where
  "handleRegisterForSelectedRoom h env pr selectedRoomForRsvp db =
     (case pr of
        None \<Rightarrow> (RegNoOp, db)
      | Some p \<Rightarrow>
          (case selectedRoomForRsvp of
             None \<Rightarrow> (RegNoOp, db)
           | Some r \<Rightarrow>
               let owner = rsvpOwnerId pr in
               if owner = [] then (SessionUnresolved, db)
               else if getRoomState h r (reg_now_guard env) \<noteq> Upcoming
               then (RegistrationClosed, db)
               else if reg_fault env = Some 1 then (RegisterFailed, db)
               else
                 (case room_rsvps db (room_id r, owner) of
                    None \<Rightarrow> registerThroughLedger h env p r owner db
                  | Some existing \<Rightarrow>
                      if isActiveRsvpStatus (rr_status existing)
                      then (AlreadyActive (rr_status existing), db)
                      else registerThroughLedger h env p r owner db)))"

section \<open>Joining a room\<close>

text \<open>
  What a run of \<open>handleJoinRoom\<close> reads from outside: the key that \<open>push\<close>
  generates, the readings of the clock at its five uses, and which store call, if any,
  fails (1: the session record, 2: the read of the index entry, 3: the index update,
  4: the unregistered record, 5: the user document).
\<close>

record join_env =
  push_key :: string
  t_joinedAt :: int
  t_firstSeen :: int
  t_lastSeen :: int
  t_timestamp :: int
  t_lastLoginAt :: int
  join_fault :: "nat option"

text \<open>
  A call ends with nothing (no profile), the redirect to the login page (no display
  name), the navigation into the room (session key, user id, role), or "Failed to enter
  room". The update of the page's own profile copy (\<open>lastRoomId\<close>) is not part of
  the model.
\<close>

datatype join_outcome =
    JoinNoOp
  | DisplayNameMissing
  | Entered string string string
  | EnterFailed

text \<open>
  The index entry is written with \<open>update\<close>, which sets the listed fields and keeps
  the others; all fields of \<open>index_entry\<close> are listed. \<open>update\<close> rejects a value
  that is \<open>undefined\<close>, so an existing entry without \<open>firstSeen\<close> makes the call
  fail after the session record is written.
\<close>

definition joinUserId :: "profile \<Rightarrow> string" where
  "joinUserId p = or_else (p_userId p) (or_else (p_firebaseUid p) (''USER-'' @ p_phone p))"

definition handleJoinRoom ::
  "join_env \<Rightarrow> profile option \<Rightarrow> string \<Rightarrow> database \<Rightarrow> join_outcome \<times> database" where
  "handleJoinRoom env pr roomId db =
     (case pr of
        None \<Rightarrow> (JoinNoOp, db)
      | Some p \<Rightarrow>
          if p_displayName p = [] then (DisplayNameMissing, db)
          else
            let finalName = p_displayName p;
                role = or_else (p_role p) ''audience'';
                userId = joinUserId p;
                key = push_key env
            in if join_fault env = Some 1 then (EnterFailed, db)
               else
                 let db1 = db\<lparr>audience_data := (audience_data db)((roomId, key) \<mapsto>
                             \<lparr> ad_email = p_email p, ad_phone = p_phone p, ad_role = role,
                               ad_userId = userId, ad_username = finalName,
                               ad_joinedAt = t_joinedAt env, ad_isMuted = False,
                               ad_isBidBanned = False, ad_isKicked = False \<rparr>)\<rparr>
                 in if join_fault env = Some 2 then (EnterFailed, db1)
                    else
                      let indexSnap = audience_index db1 (roomId, userId);
                          firstSeen = (case indexSnap of
                                         Some e \<Rightarrow> ie_firstSeen e
                                       | None \<Rightarrow> Some (t_firstSeen env))
                      in if join_fault env = Some 3 \<or> firstSeen = None then (EnterFailed, db1)
                         else
                           let db2 = db1\<lparr>audience_index := (audience_index db1)((roomId, userId) \<mapsto>
                                       \<lparr> ie_userId = userId, ie_username = finalName,
                                         ie_email = p_email p, ie_phone = p_phone p,
                                         ie_role = role, ie_firstSeen = firstSeen,
                                         ie_lastSeen = t_lastSeen env,
                                         ie_lastSessionKey = key \<rparr>)\<rparr>
                           in if p_unregistered p \<and> join_fault env = Some 4 then (EnterFailed, db2)
                              else
                                let db3 = (if p_unregistered p
                                           then db2\<lparr>unregistered := (unregistered db2)((roomId, p_phone p) \<mapsto>
                                                  \<lparr> un_phone = p_phone p, un_email = p_email p,
                                                    un_timestamp = t_timestamp env,
                                                    un_source = ''otp'' \<rparr>)\<rparr>
                                           else db2)
                                in if p_firebaseUid p \<noteq> [] \<and> join_fault env = Some 5
                                   then (EnterFailed, db3)
                                   else
                                     let db4 = (if p_firebaseUid p \<noteq> []
                                                then db3\<lparr>users := (users db3)(p_firebaseUid p \<mapsto>
                                                       \<lparr> ud_displayName = finalName, ud_username = finalName,
                                                         ud_role = role, ud_phone = p_phone p,
                                                         ud_phoneE164 = or_else (p_phoneE164 p) (toE164India (p_phone p)),
                                                         ud_email = p_email p,
                                                         ud_lastLoginAt = t_lastLoginAt env,
                                                         ud_lastRoomId = roomId \<rparr>)\<rparr>
                                                else db3)
                                     in (Entered key userId role, db4))"

section \<open>The locked-room countdown gate\<close>

text \<open>
  \<open>handleLockedTimerFinished\<close> runs when the countdown of the waiting screen has
  expired. It reads the room again, builds \<open>latestRoom\<close> from the stored \<open>isLive\<close>
  and \<open>event_config\<close> (the selected room's own \<open>eventConfig\<close> when the store has
  none) and resolves its state at the clock reading \<open>gate_now\<close>. A failing read ends
  in "Unable to open room right now"; failures inside \<open>handleJoinRoom\<close> are caught
  there. \<open>latestRoom\<close> has no audience index in the source; the field is empty here.
\<close>

record gate_env =
  gate_now :: int
  gate_read_ok :: bool

datatype gate_outcome =
    GateNoOp
  | StillLocked
  | Admitted join_outcome
  | UnableToOpen

definition latestRoomOf :: "room \<Rightarrow> database \<Rightarrow> room" where
  "latestRoomOf sel db =
     \<lparr> room_id = room_id sel,
       isLive = truthy (room_isLive db (room_id sel)),
       audienceIndex = Map.empty,
       eventConfig = (case event_config db (room_id sel) of
                        Some ec \<Rightarrow> ec
                      | None \<Rightarrow> eventConfig sel) \<rparr>"

definition handleLockedTimerFinished ::
  "js_host \<Rightarrow> gate_env \<Rightarrow> join_env \<Rightarrow> profile option \<Rightarrow> room option \<Rightarrow> database
     \<Rightarrow> gate_outcome \<times> database" where
  "handleLockedTimerFinished h env jenv pr selectedLockedRoom db =
     (case selectedLockedRoom of
        None \<Rightarrow> (GateNoOp, db)
      | Some sel \<Rightarrow>
          if \<not> gate_read_ok env then (UnableToOpen, db)
          else
            let roomId = room_id sel;
                latestRoom = latestRoomOf sel db;
                latestState = getRoomState h latestRoom (gate_now env)
            in if latestState = Upcoming then (StillLocked, db)
               else
                 let (entered, db') = handleJoinRoom jenv pr roomId db
                 in (Admitted entered, db'))"

section \<open>The catalog buckets\<close>

text \<open>
  \<open>Array.prototype.sort\<close> with a comparator, as a stable insertion sort: an element
  goes before the first one it does not compare greater than.
\<close>

fun insert_by :: "('a \<Rightarrow> 'a \<Rightarrow> int) \<Rightarrow> 'a \<Rightarrow> 'a list \<Rightarrow> 'a list" where
  "insert_by cmp x [] = [x]"
| "insert_by cmp x (y # ys) = (if cmp x y \<le> 0 then x # y # ys else y # insert_by cmp x ys)"

definition js_sort :: "('a \<Rightarrow> 'a \<Rightarrow> int) \<Rightarrow> 'a list \<Rightarrow> 'a list" where
  "js_sort cmp xs = foldr (insert_by cmp) xs []"

text \<open>The comparator of \<open>yourShows\<close>: the last visited room first, then state rank, start, id.\<close>

definition startOrMax :: "js_host \<Rightarrow> room \<Rightarrow> int" where
  "startOrMax h r =
     (let s = startTimeMs (getRoomWindow h r) in if s \<noteq> 0 then s else MAX_SAFE_INTEGER)"

definition compareShows :: "js_host \<Rightarrow> int \<Rightarrow> room \<Rightarrow> room \<Rightarrow> int" where
  "compareShows h nowMs a b =
     (let stateDiff = roomStateRank (getRoomState h a nowMs) - roomStateRank (getRoomState h b nowMs)
      in if stateDiff \<noteq> 0 then stateDiff
         else
           let aStart = startOrMax h a; bStart = startOrMax h b
           in if aStart \<noteq> bStart then aStart - bStart
              else localeCompare h (room_id a) (room_id b))"

definition compareYourShows :: "js_host \<Rightarrow> profile option \<Rightarrow> int \<Rightarrow> room \<Rightarrow> room \<Rightarrow> int" where
  "compareYourShows h pr nowMs a b =
     (let lastRoomId = (case pr of None \<Rightarrow> [] | Some p \<Rightarrow> p_lastRoomId p)
      in if lastRoomId \<noteq> [] \<and> room_id a = lastRoomId then - 1
         else if lastRoomId \<noteq> [] \<and> room_id b = lastRoomId then 1
         else compareShows h nowMs a b)"

definition joinedViaAudience :: "profile option \<Rightarrow> room \<Rightarrow> bool" where
  "joinedViaAudience pr r = (audienceIndex r (profileUserId pr) \<noteq> None)"

definition joinedViaRsvp :: "(string \<rightharpoonup> user_rsvp) \<Rightarrow> room \<Rightarrow> bool" where
  "joinedViaRsvp userRsvps r =
     isActiveRsvpStatus (case userRsvps (room_id r) of None \<Rightarrow> [] | Some u \<Rightarrow> ur_status u)"

definition yourShows ::
  "js_host \<Rightarrow> profile option \<Rightarrow> room list \<Rightarrow> (string \<rightharpoonup> user_rsvp) \<Rightarrow> int \<Rightarrow> room list" where
  "yourShows h pr rooms userRsvps nowMs =
     (if profileUserId pr = [] \<and> rsvpOwnerId pr = [] then []
      else
        let userRooms = filter (\<lambda>r. joinedViaAudience pr r \<or> joinedViaRsvp userRsvps r) rooms
        in js_sort (compareYourShows h pr nowMs) userRooms)"

definition yourSet ::
  "js_host \<Rightarrow> profile option \<Rightarrow> room list \<Rightarrow> (string \<rightharpoonup> user_rsvp) \<Rightarrow> int \<Rightarrow> string set" where
  "yourSet h pr rooms userRsvps nowMs = set (map room_id (yourShows h pr rooms userRsvps nowMs))"

definition upcomingShows ::
  "js_host \<Rightarrow> profile option \<Rightarrow> room list \<Rightarrow> (string \<rightharpoonup> user_rsvp) \<Rightarrow> int \<Rightarrow> room list" where
  "upcomingShows h pr rooms userRsvps nowMs =
     filter (\<lambda>r. getRoomState h r nowMs = Upcoming \<and> room_id r \<notin> yourSet h pr rooms userRsvps nowMs) rooms"

definition currentShows ::
  "js_host \<Rightarrow> profile option \<Rightarrow> room list \<Rightarrow> (string \<rightharpoonup> user_rsvp) \<Rightarrow> int \<Rightarrow> room list" where
  "currentShows h pr rooms userRsvps nowMs =
     filter (\<lambda>r. getRoomState h r nowMs = Current \<and> room_id r \<notin> yourSet h pr rooms userRsvps nowMs) rooms"

section \<open>Fixtures for concrete runs\<close>

text \<open>
  A host whose string parsers reject every string and whose string comparison is by
  length, a room entry whose \<open>event_config\<close> holds a numeric window, and an empty store.
\<close>

definition plainHost :: js_host where
  "plainHost =
     \<lparr> Date_parse = (\<lambda>s. None), Number_of_string = (\<lambda>s. None),
       localeCompare = (\<lambda>a b. int (length a) - int (length b)) \<rparr>"

definition windowRoom :: "string \<Rightarrow> bool \<Rightarrow> int \<Rightarrow> int \<Rightarrow> room" where
  "windowRoom i live s e =
     \<lparr> room_id = i, isLive = live, audienceIndex = Map.empty,
       eventConfig = [''startTimeMs'' \<mapsto> JNum s, ''endTimeMs'' \<mapsto> JNum e] \<rparr>"

definition emptyStore :: database where
  "emptyStore =
     \<lparr> rsvp_config = Map.empty, room_rsvps = Map.empty, user_rsvps = Map.empty,
       audience_index = Map.empty, audience_data = Map.empty, unregistered = Map.empty,
       users = Map.empty, room_isLive = Map.empty, event_config = Map.empty \<rparr>"

definition phoneProfile :: "string \<Rightarrow> string \<Rightarrow> profile" where
  "phoneProfile uid name =
     \<lparr> p_role = ''audience'', p_userId = uid, p_phone = ''9876543210'',
       p_phoneE164 = ''+919876543210'', p_email = ''9876543210@otp.local'',
       p_unregistered = False, p_displayName = name, p_lastRoomId = [],
       p_firebaseUid = [] \<rparr>"

text \<open>
  A room entry with a numeric window whose audience index holds an entry of one user, and a
  user-side RSVP record with a given status.
\<close>

definition visitedRoom :: "string \<Rightarrow> int \<Rightarrow> int \<Rightarrow> string \<Rightarrow> room" where
  "visitedRoom i s e uid =
     (windowRoom i False s e)\<lparr>audienceIndex := [uid \<mapsto>
        \<lparr> ie_userId = uid, ie_username = ''Asha'', ie_email = [], ie_phone = [],
          ie_role = ''audience'', ie_firstSeen = Some 100, ie_lastSeen = 100,
          ie_lastSessionKey = ''k0'' \<rparr>]\<rparr>"

definition rsvpWith :: "string \<Rightarrow> string \<Rightarrow> user_rsvp" where
  "rsvpWith i st =
     \<lparr> ur_status = st, ur_roomId = i, ur_startTimeMs = 0, ur_endTimeMs = 0, ur_updatedAt = 500 \<rparr>"

section \<open>The lifecycle rules as the specification words them\<close>

text \<open>
  The five rules of the specification over a window, a live flag and a time, first match
  wins. \<open>getRoomState\<close> above is compared with this definition.
\<close>

definition resolve_spec :: "int \<Rightarrow> int \<Rightarrow> bool \<Rightarrow> int \<Rightarrow> room_state" where
  "resolve_spec startMs endMs liveFlag now =
     (if startMs \<noteq> 0 \<and> now < startMs then Upcoming
      else if endMs \<noteq> 0 \<and> now \<ge> endMs then Ended
      else if liveFlag then Current
      else if startMs \<noteq> 0 \<and> now \<ge> startMs \<and> (endMs = 0 \<or> now < endMs) then Current
      else Upcoming)"

section \<open>Observations used in the statements\<close>

text \<open>The test of the idempotent short-circuit: an existing room-side record with an active status.\<close>

definition hasActiveRsvp :: "database \<Rightarrow> string \<Rightarrow> string \<Rightarrow> bool" where
  "hasActiveRsvp db roomId owner =
     (case room_rsvps db (roomId, owner) of
        None \<Rightarrow> False
      | Some existing \<Rightarrow> isActiveRsvpStatus (rr_status existing))"

text \<open>
  The status a register call reports: the assigned one, the existing one, or the refusal.
  The other outcomes (guards and store failures) report none.
\<close>

fun returnedStatus :: "register_outcome \<Rightarrow> string option" where
  "returnedStatus (Assigned st) = Some st"
| "returnedStatus (AlreadyActive st) = Some st"
| "returnedStatus RsvpClosed = Some ''refused''"
| "returnedStatus out = None"

text \<open>The two views of one (room, user) pair agree: both absent, or both present with one status.\<close>

definition viewsAgree :: "database \<Rightarrow> string \<Rightarrow> string \<Rightarrow> bool" where
  "viewsAgree db roomId owner =
     (case room_rsvps db (roomId, owner) of
        None \<Rightarrow> user_rsvps db (owner, roomId) = None
      | Some a \<Rightarrow>
          (case user_rsvps db (owner, roomId) of
             None \<Rightarrow> False
           | Some b \<Rightarrow> rr_status a = ur_status b))"

section \<open>Invariant of a run of register transactions\<close>

text \<open>
  \<open>ledgerAt h current c b w\<close>: the stored config \<open>current\<close>, read as the
  transaction reads it, is open and has capacity \<open>c\<close>, booked count \<open>b\<close> and
  waitlist count \<open>w\<close>.
\<close>

definition ledgerAt :: "js_host \<Rightarrow> jsobj option \<Rightarrow> int \<Rightarrow> int \<Rightarrow> int \<Rightarrow> bool" where
  "ledgerAt h current c b w =
     (loadConfig current ''rsvpOpen'' \<noteq> Some (JBool False)
      \<and> capacityOf h (loadConfig current) = c
      \<and> bookedCountOf h (loadConfig current) = b
      \<and> waitlistCountOf h (loadConfig current) = w)"

section \<open>The lifecycle resolver\<close>

lemma getRoomWindow_windowRoom:
  "getRoomWindow h (windowRoom i l s e) = \<lparr> startTimeMs = s, endTimeMs = e \<rparr>"
  by (simp add: getRoomWindow_def windowRoom_def nullish_def)

lemma getRoomState_eq_spec: "getRoomState h r now =
     resolve_spec (startTimeMs (getRoomWindow h r)) (endTimeMs (getRoomWindow h r)) (isLive r) now" 
    by (simp add: getRoomState_def resolve_spec_def Let_def)

lemma isLive_windowRoom: "isLive (windowRoom i l s e) = l"
  by (simp add: windowRoom_def)

lemma getRoomState_windowRoom:
  "getRoomState h (windowRoom i l s e) now = resolve_spec s e l now"
  by (simp add: getRoomState_eq_spec getRoomWindow_windowRoom isLive_windowRoom)

lemma resolve_spec_live_keeps_ended:
  "resolve_spec s e False now = Ended \<Longrightarrow> resolve_spec s e True now = Ended"
  by (simp add: resolve_spec_def split: if_splits)

lemma getRoomWindow_isLive_update: "getRoomWindow h (r\<lparr>isLive := l\<rparr>) = getRoomWindow h r"
  by (simp add: getRoomWindow_def)

text \<open>
  Claim C6. For every window, live flag and time, \<open>getRoomState\<close> returns the first
  matching rule of the specification's five (\<open>resolve_spec\<close>): upcoming before a set
  start, else ended from a set end on, else current when live, else current inside the
  window, else upcoming. A live flag never turns an ended room into anything else. The
  window 1000 to 2000 without live flag is upcoming at 500, current at 1500 and ended at
  2000, and a live room without window is current at every time.
\<close>

theorem getRoomState_resolves:
  "getRoomState h r now =
     resolve_spec (startTimeMs (getRoomWindow h r)) (endTimeMs (getRoomWindow h r)) (isLive r) now
   \<and> getRoomState h (windowRoom i live s e) now = resolve_spec s e live now
   \<and> (resolve_spec s e False now = Ended \<longrightarrow> resolve_spec s e True now = Ended)
   \<and> (getRoomState h (r\<lparr>isLive := False\<rparr>) now = Ended
        \<longrightarrow> getRoomState h (r\<lparr>isLive := True\<rparr>) now = Ended)
   \<and> getRoomState h (windowRoom i False 1000 2000) 500 = Upcoming
   \<and> getRoomState h (windowRoom i False 1000 2000) 1500 = Current
   \<and> getRoomState h (windowRoom i False 1000 2000) 2000 = Ended
   \<and> getRoomState h (windowRoom i True 0 0) t = Current"
proof (intro conjI)
  show "getRoomState h r now =
     resolve_spec (startTimeMs (getRoomWindow h r)) (endTimeMs (getRoomWindow h r)) (isLive r) now"
    by (rule getRoomState_eq_spec)
  show "getRoomState h (windowRoom i live s e) now = resolve_spec s e live now"
    by (rule getRoomState_windowRoom)
  show "resolve_spec s e False now = Ended \<longrightarrow> resolve_spec s e True now = Ended"
    by (simp add: resolve_spec_live_keeps_ended)
  show "getRoomState h (r\<lparr>isLive := False\<rparr>) now = Ended
        \<longrightarrow> getRoomState h (r\<lparr>isLive := True\<rparr>) now = Ended"
    by (simp add: getRoomState_eq_spec getRoomWindow_isLive_update resolve_spec_live_keeps_ended)
  show "getRoomState h (windowRoom i False 1000 2000) 500 = Upcoming"
    by (simp add: getRoomState_windowRoom resolve_spec_def)
  show "getRoomState h (windowRoom i False 1000 2000) 1500 = Current"
    by (simp add: getRoomState_windowRoom resolve_spec_def)
  show "getRoomState h (windowRoom i False 1000 2000) 2000 = Ended"
    by (simp add: getRoomState_windowRoom resolve_spec_def)
  show "getRoomState h (windowRoom i True 0 0) t = Current"
    by (simp add: getRoomState_windowRoom resolve_spec_def)
qed

theorem getRoomState_resolves_witness:
  "resolve_spec 1000 2000 False 2500 = Ended \<and> resolve_spec 1000 2000 True 2500 = Ended
   \<and> getRoomState plainHost ((windowRoom ''r1'' True 1000 2000)\<lparr>isLive := False\<rparr>) 2500 = Ended
   \<and> getRoomState plainHost ((windowRoom ''r1'' True 1000 2000)\<lparr>isLive := True\<rparr>) 2500 = Ended"
proof -
  note T = getRoomState_resolves [of plainHost "windowRoom ''r1'' True 1000 2000" 2500
             "''r1''" True 1000 2000 0]
  have p1: "resolve_spec 1000 2000 False 2500 = Ended"
    by (simp add: resolve_spec_def)
  have p2: "getRoomState plainHost ((windowRoom ''r1'' True 1000 2000)\<lparr>isLive := False\<rparr>) 2500 = Ended"
    by (simp add: getRoomState_eq_spec getRoomWindow_isLive_update getRoomWindow_windowRoom
        resolve_spec_def)
  from T p1 have q1: "resolve_spec 1000 2000 True 2500 = Ended" by blast
  from T p2 have q2: "getRoomState plainHost ((windowRoom ''r1'' True 1000 2000)\<lparr>isLive := True\<rparr>) 2500 = Ended"
    by blast
  from p1 p2 q1 q2 show ?thesis by blast
qed

text \<open>Before a set start the first rule wins also for a live room: it is upcoming.\<close>

lemma live_room_before_start_is_upcoming:
  "getRoomState h (windowRoom i True 1000 2000) 500 = Upcoming"
  by (simp add: getRoomState_windowRoom resolve_spec_def)

section \<open>The register transaction\<close>

lemma loadConfig_apply:
  "loadConfig current k =
     (case current of
        None \<Rightarrow> DEFAULT_RSVP_CONFIG k
      | Some c \<Rightarrow> (case c k of None \<Rightarrow> DEFAULT_RSVP_CONFIG k | Some v \<Rightarrow> Some v))"
  by (simp add: loadConfig_def map_add_def split: option.splits)

lemma loadConfig_stored:
  "loadConfig (Some ((loadConfig current)(k \<mapsto> v))) = (loadConfig current)(k \<mapsto> v)"
  by (rule ext) (simp add: loadConfig_apply split: option.splits)

lemma rsvpTransaction_closed:
  "loadConfig current ''rsvpOpen'' = Some (JBool False) \<Longrightarrow> rsvpTransaction h current = None"
  by (simp add: rsvpTransaction_def Let_def)

lemma rsvpTransaction_waitlisted:
  assumes "loadConfig current ''rsvpOpen'' \<noteq> Some (JBool False)"
    and "capacityOf h (loadConfig current) > 0"
    and "bookedCountOf h (loadConfig current) \<ge> capacityOf h (loadConfig current)"
  shows "rsvpTransaction h current =
           Some (RSVP_WAITLISTED,
                 (loadConfig current)(''waitlistCount'' \<mapsto>
                    JNum (waitlistCountOf h (loadConfig current) + 1)))"
  using assms by (simp add: rsvpTransaction_def Let_def)

lemma rsvpTransaction_registered:
  assumes "loadConfig current ''rsvpOpen'' \<noteq> Some (JBool False)"
    and "\<not> (capacityOf h (loadConfig current) > 0
            \<and> bookedCountOf h (loadConfig current) \<ge> capacityOf h (loadConfig current))"
  shows "rsvpTransaction h current =
           Some (RSVP_REGISTERED,
                 (loadConfig current)(''bookedCount'' \<mapsto>
                    JNum (bookedCountOf h (loadConfig current) + 1)))"
  using assms by (auto simp add: rsvpTransaction_def Let_def)

lemma counters_after_waitlist:
  "capacityOf h (cfg(''waitlistCount'' \<mapsto> JNum n)) = capacityOf h cfg"
  "bookedCountOf h (cfg(''waitlistCount'' \<mapsto> JNum n)) = bookedCountOf h cfg"
  "waitlistCountOf h (cfg(''waitlistCount'' \<mapsto> JNum n)) = n"
  "(cfg(''waitlistCount'' \<mapsto> JNum n)) ''rsvpOpen'' = cfg ''rsvpOpen''"
  by (simp_all add: capacityOf_def bookedCountOf_def waitlistCountOf_def number_or0_def)

lemma counters_after_booking:
  "capacityOf h (cfg(''bookedCount'' \<mapsto> JNum n)) = capacityOf h cfg"
  "bookedCountOf h (cfg(''bookedCount'' \<mapsto> JNum n)) = n"
  "waitlistCountOf h (cfg(''bookedCount'' \<mapsto> JNum n)) = waitlistCountOf h cfg"
  "(cfg(''bookedCount'' \<mapsto> JNum n)) ''rsvpOpen'' = cfg ''rsvpOpen''"
  by (simp_all add: capacityOf_def bookedCountOf_def waitlistCountOf_def number_or0_def)

lemma runTransaction_waitlisted:
  assumes "ledgerAt h current c b w" "0 < c" "c \<le> b"
  shows "\<exists>cfg. runTransaction (rsvpTransaction h) current = (Some RSVP_WAITLISTED, Some cfg)
               \<and> ledgerAt h (Some cfg) c b (w + 1)"
  using assms
  by (simp add: ledgerAt_def runTransaction_def rsvpTransaction_waitlisted loadConfig_stored
      counters_after_waitlist)

lemma runTransaction_registered:
  assumes "ledgerAt h current c b w" "\<not> (0 < c \<and> c \<le> b)"
  shows "\<exists>cfg. runTransaction (rsvpTransaction h) current = (Some RSVP_REGISTERED, Some cfg)
               \<and> ledgerAt h (Some cfg) c (b + 1) w"
  using assms
  by (simp add: ledgerAt_def runTransaction_def rsvpTransaction_registered loadConfig_stored
      counters_after_booking)

lemma registerCalls_all_registered:
  "ledgerAt h current c b w \<Longrightarrow> b + int n \<le> c \<Longrightarrow>
   \<exists>final. registerCalls h n current = (replicate n (Some RSVP_REGISTERED), final)
           \<and> ledgerAt h final c (b + int n) w"
proof (induction n arbitrary: current b)
  case 0
  then show ?case by simp
next
  case (Suc n)
  from Suc.prems have nb: "\<not> (0 < c \<and> c \<le> b)" by auto
  from runTransaction_registered [OF Suc.prems(1) nb]
  obtain cfg where step: "runTransaction (rsvpTransaction h) current = (Some RSVP_REGISTERED, Some cfg)"
    and inv: "ledgerAt h (Some cfg) c (b + 1) w" by blast
  from Suc.prems have "(b + 1) + int n \<le> c" by simp
  from Suc.IH [OF inv this]
  obtain final where rest: "registerCalls h n (Some cfg) = (replicate n (Some RSVP_REGISTERED), final)"
    and fin: "ledgerAt h final c (b + 1 + int n) w" by blast
  have "b + 1 + int n = b + int (Suc n)" by simp
  with fin have "ledgerAt h final c (b + int (Suc n)) w" by metis
  with step rest show ?case by simp
qed

lemma registerCalls_all_waitlisted:
  "ledgerAt h current c b w \<Longrightarrow> 0 < c \<Longrightarrow> c \<le> b \<Longrightarrow>
   \<exists>final. registerCalls h n current = (replicate n (Some RSVP_WAITLISTED), final)
           \<and> ledgerAt h final c b (w + int n)"
proof (induction n arbitrary: current w)
  case 0
  then show ?case by simp
next
  case (Suc n)
  from runTransaction_waitlisted [OF Suc.prems]
  obtain cfg where step: "runTransaction (rsvpTransaction h) current = (Some RSVP_WAITLISTED, Some cfg)"
    and inv: "ledgerAt h (Some cfg) c b (w + 1)" by blast
  from Suc.IH [OF inv Suc.prems(2,3)]
  obtain final where rest: "registerCalls h n (Some cfg) = (replicate n (Some RSVP_WAITLISTED), final)"
    and fin: "ledgerAt h final c b (w + 1 + int n)" by blast
  have "w + 1 + int n = w + int (Suc n)" by simp
  with fin have "ledgerAt h final c b (w + int (Suc n))" by metis
  with step rest show ?case by simp
qed

lemma registerCalls_add:
  "registerCalls h (m + n) current =
     (let (o1, c1) = registerCalls h m current; (o2, c2) = registerCalls h n c1
      in (o1 @ o2, c2))"
  by (induction m arbitrary: current) (simp_all add: Let_def split: prod.splits)

lemma status_words_differ:
  "RSVP_REGISTERED \<noteq> RSVP_WAITLISTED" "RSVP_WAITLISTED \<noteq> RSVP_REGISTERED"
  by (simp_all add: RSVP_REGISTERED_def RSVP_WAITLISTED_def)

lemma count_list_replicate: "count_list (replicate n x) y = (if x = y then n else 0)"
  by (induction n) auto

lemma registerCalls_fill_then_wait:
  assumes inv: "ledgerAt h current (int C) 0 w" and pos: "0 < C" and more: "C < N"
  shows "\<exists>final. registerCalls h N current =
            (replicate C (Some RSVP_REGISTERED) @ replicate (N - C) (Some RSVP_WAITLISTED), final)
          \<and> ledgerAt h final (int C) (int C) (w + int (N - C))"
proof -
  from registerCalls_all_registered [OF inv, of C]
  obtain mid where first: "registerCalls h C current = (replicate C (Some RSVP_REGISTERED), mid)"
    and full: "ledgerAt h mid (int C) (int C) w" by auto
  from pos have "0 < int C" by simp
  from registerCalls_all_waitlisted [OF full this, of "N - C"]
  obtain final where rest: "registerCalls h (N - C) mid = (replicate (N - C) (Some RSVP_WAITLISTED), final)"
    and fin: "ledgerAt h final (int C) (int C) (w + int (N - C))" by auto
  from more have "N = C + (N - C)" by simp
  then have "registerCalls h N current = registerCalls h (C + (N - C)) current" by simp
  also have "\<dots> = (replicate C (Some RSVP_REGISTERED) @ replicate (N - C) (Some RSVP_WAITLISTED), final)"
    by (simp add: registerCalls_add first rest)
  finally show ?thesis using fin by blast
qed

text \<open>
  Claim C1. On an open config with capacity \<open>C > 0\<close> and booked count at most
  \<open>C\<close>, one run of the register transaction commits, leaves the capacity alone and
  keeps the booked count at most \<open>C\<close>; the caller is waitlisted when the booked count
  has reached the capacity and registered below it. Hence \<open>N > C\<close> committed calls
  from booked count 0 end with exactly \<open>C\<close> registered (the first \<open>C\<close>) and
  \<open>N - C\<close> waitlisted, booked count \<open>C\<close>, and the waitlist count raised by
  \<open>N - C\<close> (so \<open>N - C\<close> from an empty waitlist).
\<close>

theorem register_never_overbooks:
  assumes opn: "loadConfig current ''rsvpOpen'' \<noteq> Some (JBool False)"
    and cap: "capacityOf h (loadConfig current) = int C" and pos: "0 < C"
    and bk: "bookedCountOf h (loadConfig current) = b" and le: "b \<le> int C"
    and wl: "waitlistCountOf h (loadConfig current) = w"
  shows "(\<exists>st cfg. rsvpTransaction h current = Some (st, cfg)
            \<and> capacityOf h (loadConfig (Some cfg)) = int C
            \<and> bookedCountOf h (loadConfig (Some cfg)) \<le> int C
            \<and> (int C \<le> b \<longrightarrow> st = RSVP_WAITLISTED)
            \<and> (b < int C \<longrightarrow> st = RSVP_REGISTERED))
       \<and> (b = 0 \<and> C < N \<longrightarrow>
            (\<exists>outcomes final. registerCalls h N current = (outcomes, final)
               \<and> outcomes = replicate C (Some RSVP_REGISTERED) @ replicate (N - C) (Some RSVP_WAITLISTED)
               \<and> count_list outcomes (Some RSVP_REGISTERED) = C
               \<and> count_list outcomes (Some RSVP_WAITLISTED) = N - C
               \<and> bookedCountOf h (loadConfig final) = int C
               \<and> waitlistCountOf h (loadConfig final) = w + int (N - C)))"
proof (intro conjI impI)
  from assms have inv: "ledgerAt h current (int C) b w" by (simp add: ledgerAt_def)
  from pos have cpos: "0 < int C" by simp
  show "\<exists>st cfg. rsvpTransaction h current = Some (st, cfg)
            \<and> capacityOf h (loadConfig (Some cfg)) = int C
            \<and> bookedCountOf h (loadConfig (Some cfg)) \<le> int C
            \<and> (int C \<le> b \<longrightarrow> st = RSVP_WAITLISTED)
            \<and> (b < int C \<longrightarrow> st = RSVP_REGISTERED)"
  proof (cases "int C \<le> b")
    case True
    from runTransaction_waitlisted [OF inv cpos True]
    obtain cfg where "runTransaction (rsvpTransaction h) current = (Some RSVP_WAITLISTED, Some cfg)"
      and "ledgerAt h (Some cfg) (int C) b (w + 1)" by blast
    with True le show ?thesis
      by (auto simp add: runTransaction_def ledgerAt_def split: option.splits)
  next
    case False
    then have "\<not> (0 < int C \<and> int C \<le> b)" by simp
    from runTransaction_registered [OF inv this]
    obtain cfg where "runTransaction (rsvpTransaction h) current = (Some RSVP_REGISTERED, Some cfg)"
      and "ledgerAt h (Some cfg) (int C) (b + 1) w" by blast
    with False show ?thesis
      by (auto simp add: runTransaction_def ledgerAt_def split: option.splits)
  qed
next
  assume start: "b = 0 \<and> C < N"
  from assms start have inv: "ledgerAt h current (int C) 0 w" by (simp add: ledgerAt_def)
  from start have more: "C < N" by simp
  from registerCalls_fill_then_wait [OF inv pos more]
  obtain final where run: "registerCalls h N current =
            (replicate C (Some RSVP_REGISTERED) @ replicate (N - C) (Some RSVP_WAITLISTED), final)"
    and fin: "ledgerAt h final (int C) (int C) (w + int (N - C))" by blast
  have c1: "count_list (replicate C (Some RSVP_REGISTERED) @ replicate (N - C) (Some RSVP_WAITLISTED))
              (Some RSVP_REGISTERED) = C"
    by (simp add: count_list_replicate status_words_differ)
  have c2: "count_list (replicate C (Some RSVP_REGISTERED) @ replicate (N - C) (Some RSVP_WAITLISTED))
              (Some RSVP_WAITLISTED) = N - C"
    by (simp add: count_list_replicate status_words_differ)
  from run fin c1 c2
  show "\<exists>outcomes final. registerCalls h N current = (outcomes, final)
               \<and> outcomes = replicate C (Some RSVP_REGISTERED) @ replicate (N - C) (Some RSVP_WAITLISTED)
               \<and> count_list outcomes (Some RSVP_REGISTERED) = C
               \<and> count_list outcomes (Some RSVP_WAITLISTED) = N - C
               \<and> bookedCountOf h (loadConfig final) = int C
               \<and> waitlistCountOf h (loadConfig final) = w + int (N - C)"
    by (simp add: ledgerAt_def)
qed

lemma small_ledger:
  "loadConfig (Some [''capacity'' \<mapsto> JNum 2]) ''rsvpOpen'' \<noteq> Some (JBool False)"
  "capacityOf h (loadConfig (Some [''capacity'' \<mapsto> JNum 2])) = int 2"
  "bookedCountOf h (loadConfig (Some [''capacity'' \<mapsto> JNum 2])) = 0"
  "waitlistCountOf h (loadConfig (Some [''capacity'' \<mapsto> JNum 2])) = 0"
  by (simp_all add: loadConfig_apply DEFAULT_RSVP_CONFIG_def capacityOf_def bookedCountOf_def
      waitlistCountOf_def number_or0_def)

theorem register_never_overbooks_witness:
  "\<exists>final. registerCalls plainHost 5 (Some [''capacity'' \<mapsto> JNum 2]) =
      ([Some RSVP_REGISTERED, Some RSVP_REGISTERED,
        Some RSVP_WAITLISTED, Some RSVP_WAITLISTED, Some RSVP_WAITLISTED], final)
     \<and> bookedCountOf plainHost (loadConfig final) = 2
     \<and> waitlistCountOf plainHost (loadConfig final) = 3"
proof -
  have two: "(0::nat) < 2" and zero: "(0::int) \<le> int 2" by simp_all
  from register_never_overbooks [OF small_ledger(1) small_ledger(2) [of plainHost] two
      small_ledger(3) [of plainHost] zero small_ledger(4) [of plainHost], of 5]
  have "\<exists>outcomes final. registerCalls plainHost 5 (Some [''capacity'' \<mapsto> JNum 2]) = (outcomes, final)
               \<and> outcomes = replicate 2 (Some RSVP_REGISTERED) @ replicate (5 - 2) (Some RSVP_WAITLISTED)
               \<and> count_list outcomes (Some RSVP_REGISTERED) = 2
               \<and> count_list outcomes (Some RSVP_WAITLISTED) = 5 - 2
               \<and> bookedCountOf plainHost (loadConfig final) = int 2
               \<and> waitlistCountOf plainHost (loadConfig final) = 0 + int (5 - 2)"
    by simp
  then show ?thesis by (auto simp add: numeral_eq_Suc)
qed

lemma rsvpTransaction_None_iff:
  "rsvpTransaction h current = None \<longleftrightarrow> loadConfig current ''rsvpOpen'' = Some (JBool False)"
  by (simp add: rsvpTransaction_def Let_def)

lemma rsvpTransaction_SomeD:
  assumes run: "rsvpTransaction h current = Some (st, cfg')"
  shows "if 0 < capacityOf h (loadConfig current)
            \<and> capacityOf h (loadConfig current) \<le> bookedCountOf h (loadConfig current)
         then st = RSVP_WAITLISTED
              \<and> cfg' = (loadConfig current)(''waitlistCount'' \<mapsto>
                           JNum (waitlistCountOf h (loadConfig current) + 1))
         else st = RSVP_REGISTERED
              \<and> cfg' = (loadConfig current)(''bookedCount'' \<mapsto>
                           JNum (bookedCountOf h (loadConfig current) + 1))"
  using run by (auto simp add: rsvpTransaction_def Let_def split: if_splits)

text \<open>
  Claim C2. The register transaction reads the current config with every missing field
  filled from the defaults (open, capacity 100, booked 0, waitlist 0). It aborts exactly
  when \<open>rsvpOpen\<close> is \<open>false\<close>. When it commits it changes one field: with
  capacity above 0 and booked count at or above it, the waitlist count goes up by 1 and
  the caller is waitlisted; otherwise the booked count goes up by 1 and the caller is
  registered. Every other field of the filled config is returned as it was.
\<close>

theorem rsvpTransaction_single_increment:
  "loadConfig current k =
     (case current of
        None \<Rightarrow> DEFAULT_RSVP_CONFIG k
      | Some c \<Rightarrow> (case c k of None \<Rightarrow> DEFAULT_RSVP_CONFIG k | Some v \<Rightarrow> Some v))
   \<and> DEFAULT_RSVP_CONFIG =
       [''rsvpOpen'' \<mapsto> JBool True, ''capacity'' \<mapsto> JNum 100,
        ''bookedCount'' \<mapsto> JNum 0, ''waitlistCount'' \<mapsto> JNum 0]
   \<and> (rsvpTransaction h current = None \<longleftrightarrow> loadConfig current ''rsvpOpen'' = Some (JBool False))
   \<and> (rsvpTransaction h current = Some (st, cfg') \<longrightarrow>
        (if 0 < capacityOf h (loadConfig current)
            \<and> capacityOf h (loadConfig current) \<le> bookedCountOf h (loadConfig current)
         then st = RSVP_WAITLISTED
              \<and> cfg' ''waitlistCount'' = Some (JNum (waitlistCountOf h (loadConfig current) + 1))
              \<and> waitlistCountOf h cfg' = waitlistCountOf h (loadConfig current) + 1
              \<and> (\<forall>k'. k' \<noteq> ''waitlistCount'' \<longrightarrow> cfg' k' = loadConfig current k')
         else st = RSVP_REGISTERED
              \<and> cfg' ''bookedCount'' = Some (JNum (bookedCountOf h (loadConfig current) + 1))
              \<and> bookedCountOf h cfg' = bookedCountOf h (loadConfig current) + 1
              \<and> (\<forall>k'. k' \<noteq> ''bookedCount'' \<longrightarrow> cfg' k' = loadConfig current k')))"
proof (intro conjI impI)
  show "loadConfig current k =
     (case current of
        None \<Rightarrow> DEFAULT_RSVP_CONFIG k
      | Some c \<Rightarrow> (case c k of None \<Rightarrow> DEFAULT_RSVP_CONFIG k | Some v \<Rightarrow> Some v))"
    by (rule loadConfig_apply)
  show "DEFAULT_RSVP_CONFIG =
       [''rsvpOpen'' \<mapsto> JBool True, ''capacity'' \<mapsto> JNum 100,
        ''bookedCount'' \<mapsto> JNum 0, ''waitlistCount'' \<mapsto> JNum 0]"
    by (rule DEFAULT_RSVP_CONFIG_def)
  show "rsvpTransaction h current = None \<longleftrightarrow> loadConfig current ''rsvpOpen'' = Some (JBool False)"
    by (rule rsvpTransaction_None_iff)
next
  assume run: "rsvpTransaction h current = Some (st, cfg')"
  let ?cfg = "loadConfig current"
  show "if 0 < capacityOf h ?cfg \<and> capacityOf h ?cfg \<le> bookedCountOf h ?cfg
         then st = RSVP_WAITLISTED
              \<and> cfg' ''waitlistCount'' = Some (JNum (waitlistCountOf h ?cfg + 1))
              \<and> waitlistCountOf h cfg' = waitlistCountOf h ?cfg + 1
              \<and> (\<forall>k'. k' \<noteq> ''waitlistCount'' \<longrightarrow> cfg' k' = ?cfg k')
         else st = RSVP_REGISTERED
              \<and> cfg' ''bookedCount'' = Some (JNum (bookedCountOf h ?cfg + 1))
              \<and> bookedCountOf h cfg' = bookedCountOf h ?cfg + 1
              \<and> (\<forall>k'. k' \<noteq> ''bookedCount'' \<longrightarrow> cfg' k' = ?cfg k')"
  proof (cases "0 < capacityOf h ?cfg \<and> capacityOf h ?cfg \<le> bookedCountOf h ?cfg")
    case True
    with rsvpTransaction_SomeD [OF run]
    have "st = RSVP_WAITLISTED"
      and "cfg' = ?cfg(''waitlistCount'' \<mapsto> JNum (waitlistCountOf h ?cfg + 1))"
      by simp_all
    with True show ?thesis by (simp add: counters_after_waitlist)
  next
    case False
    with rsvpTransaction_SomeD [OF run]
    have "st = RSVP_REGISTERED"
      and "cfg' = ?cfg(''bookedCount'' \<mapsto> JNum (bookedCountOf h ?cfg + 1))"
      by simp_all
    with False show ?thesis by (simp add: counters_after_booking)
  qed
qed

lemma full_ledger:
  "loadConfig (Some [''capacity'' \<mapsto> JNum 2, ''bookedCount'' \<mapsto> JNum 2]) ''rsvpOpen''
     \<noteq> Some (JBool False)"
  "capacityOf h (loadConfig (Some [''capacity'' \<mapsto> JNum 2, ''bookedCount'' \<mapsto> JNum 2])) = 2"
  "bookedCountOf h (loadConfig (Some [''capacity'' \<mapsto> JNum 2, ''bookedCount'' \<mapsto> JNum 2])) = 2"
  "waitlistCountOf h (loadConfig (Some [''capacity'' \<mapsto> JNum 2, ''bookedCount'' \<mapsto> JNum 2])) = 0"
  by (simp_all add: loadConfig_apply DEFAULT_RSVP_CONFIG_def capacityOf_def bookedCountOf_def
      waitlistCountOf_def number_or0_def)

theorem rsvpTransaction_single_increment_witness:
  "\<exists>cfg'. rsvpTransaction plainHost (Some [''capacity'' \<mapsto> JNum 2, ''bookedCount'' \<mapsto> JNum 2])
             = Some (RSVP_WAITLISTED, cfg')
      \<and> cfg' ''waitlistCount'' = Some (JNum 1)
      \<and> cfg' ''bookedCount'' = Some (JNum 2)
      \<and> cfg' ''capacity'' = Some (JNum 2)
      \<and> cfg' ''rsvpOpen'' = Some (JBool True)"
proof -
  let ?cur = "Some [''capacity'' \<mapsto> JNum 2, ''bookedCount'' \<mapsto> JNum (2::int)]"
  let ?cfg' = "(loadConfig ?cur)(''waitlistCount'' \<mapsto> JNum 1)"
  have run: "rsvpTransaction plainHost ?cur = Some (RSVP_WAITLISTED, ?cfg')"
    using rsvpTransaction_waitlisted [of ?cur plainHost] by (simp add: full_ledger)
  from rsvpTransaction_single_increment [of ?cur "''bookedCount''" plainHost RSVP_WAITLISTED ?cfg'] run
  have "?cfg' ''waitlistCount'' = Some (JNum 1)
        \<and> (\<forall>k'. k' \<noteq> ''waitlistCount'' \<longrightarrow> ?cfg' k' = loadConfig ?cur k')"
    by (simp add: full_ledger)
  then have "?cfg' ''waitlistCount'' = Some (JNum 1) \<and> ?cfg' ''bookedCount'' = Some (JNum 2)
      \<and> ?cfg' ''capacity'' = Some (JNum 2) \<and> ?cfg' ''rsvpOpen'' = Some (JBool True)"
    by (simp add: loadConfig_apply DEFAULT_RSVP_CONFIG_def)
  with run show ?thesis by blast
qed

section \<open>The register handler\<close>

lemma active_words:
  "isActiveRsvpStatus RSVP_REGISTERED" "isActiveRsvpStatus RSVP_WAITLISTED"
  "\<not> isActiveRsvpStatus RSVP_CANCELLED" "\<not> isActiveRsvpStatus []"
  by (simp_all add: isActiveRsvpStatus_def toLowerChar_def RSVP_REGISTERED_def
      RSVP_WAITLISTED_def RSVP_CANCELLED_def)

lemma rsvpTransaction_status:
  "rsvpTransaction h current = Some (st, cfg) \<Longrightarrow> st = RSVP_REGISTERED \<or> st = RSVP_WAITLISTED"
  by (drule rsvpTransaction_SomeD) (simp split: if_splits)

lemma rsvpTransaction_status_nonempty:
  "rsvpTransaction h current = Some (st, cfg) \<Longrightarrow> st \<noteq> []"
  by (drule rsvpTransaction_status) (auto simp add: RSVP_REGISTERED_def RSVP_WAITLISTED_def)

lemma rsvpTransaction_status_active:
  "rsvpTransaction h current = Some (st, cfg) \<Longrightarrow> isActiveRsvpStatus st"
  by (drule rsvpTransaction_status) (auto simp add: active_words)

lemma registerThroughLedger_closed:
  assumes "rsvpTransaction h (rsvp_config db (room_id r)) = None"
  shows "registerThroughLedger h env p r owner db =
           (if reg_fault env = Some 2 then RegisterFailed else RsvpClosed, db)"
  using assms by (simp add: registerThroughLedger_def runTransaction_def Let_def)

lemma registerThroughLedger_commit:
  assumes "rsvpTransaction h (rsvp_config db (room_id r)) = Some (st, cfg)"
    and "reg_fault env \<noteq> Some 2"
  shows "registerThroughLedger h env p r owner db =
           (if reg_fault env = Some 3
            then (RegisterFailed, db\<lparr>rsvp_config := (rsvp_config db)(room_id r \<mapsto> cfg)\<rparr>)
            else (Assigned st,
                  db\<lparr>rsvp_config := (rsvp_config db)(room_id r \<mapsto> cfg),
                     room_rsvps := (room_rsvps db)((room_id r, owner) \<mapsto>
                        \<lparr> rr_status = st, rr_createdAt = reg_now_write env,
                          rr_phone = p_phone p, rr_displayName = p_displayName p,
                          rr_userId = owner \<rparr>),
                     user_rsvps := (user_rsvps db)((owner, room_id r) \<mapsto>
                        \<lparr> ur_status = st, ur_roomId = room_id r,
                          ur_startTimeMs = startTimeMs (getRoomWindow h r),
                          ur_endTimeMs = endTimeMs (getRoomWindow h r),
                          ur_updatedAt = reg_now_write env \<rparr>)\<rparr>))"
  using assms rsvpTransaction_status_nonempty [OF assms(1)]
  by (simp add: registerThroughLedger_def runTransaction_def Let_def)

text \<open>The handler once its guards are passed.\<close>

lemma handleRegister_past_guards:
  assumes "rsvpOwnerId (Some p) \<noteq> []"
    and "getRoomState h r (reg_now_guard env) = Upcoming"
    and "reg_fault env \<noteq> Some 1"
  shows "handleRegisterForSelectedRoom h env (Some p) (Some r) db =
           (case room_rsvps db (room_id r, rsvpOwnerId (Some p)) of
              None \<Rightarrow> registerThroughLedger h env p r (rsvpOwnerId (Some p)) db
            | Some existing \<Rightarrow>
                if isActiveRsvpStatus (rr_status existing)
                then (AlreadyActive (rr_status existing), db)
                else registerThroughLedger h env p r (rsvpOwnerId (Some p)) db)"
  using assms by (simp add: handleRegisterForSelectedRoom_def Let_def)

lemma handleRegister_inactive:
  assumes "rsvpOwnerId (Some p) \<noteq> []"
    and "getRoomState h r (reg_now_guard env) = Upcoming"
    and "reg_fault env \<noteq> Some 1"
    and "\<not> hasActiveRsvp db (room_id r) (rsvpOwnerId (Some p))"
  shows "handleRegisterForSelectedRoom h env (Some p) (Some r) db =
           registerThroughLedger h env p r (rsvpOwnerId (Some p)) db"
  using assms(4) unfolding handleRegister_past_guards [OF assms(1-3)]
  by (simp add: hasActiveRsvp_def split: option.splits)

lemma handleRegister_active:
  assumes "rsvpOwnerId (Some p) \<noteq> []"
    and "getRoomState h r (reg_now_guard env) = Upcoming"
    and "reg_fault env \<noteq> Some 1"
    and "room_rsvps db (room_id r, rsvpOwnerId (Some p)) = Some existing"
    and "isActiveRsvpStatus (rr_status existing)"
  shows "handleRegisterForSelectedRoom h env (Some p) (Some r) db =
           (AlreadyActive (rr_status existing), db)"
  using assms(4,5) unfolding handleRegister_past_guards [OF assms(1-3)]
  by simp

text \<open>Whatever the guards say, a closed config leaves the store as it was.\<close>

lemma registerThroughLedger_closed_store:
  "rsvpTransaction h (rsvp_config db (room_id r)) = None \<Longrightarrow>
   snd (registerThroughLedger h env p r owner db) = db"
  by (simp add: registerThroughLedger_closed)

lemma handleRegister_closed_store:
  assumes "rsvpTransaction h (rsvp_config db (room_id r)) = None"
  shows "snd (handleRegisterForSelectedRoom h env pr (Some r) db) = db"
  using registerThroughLedger_closed_store [OF assms]
  by (simp add: handleRegisterForSelectedRoom_def Let_def split: option.splits)

lemma stored_closed:
  assumes "rsvp_config db roomId = Some c" and "c ''rsvpOpen'' = Some (JBool False)"
  shows "rsvpTransaction h (rsvp_config db roomId) = None"
  using assms by (simp add: rsvpTransaction_None_iff loadConfig_apply)

lemma windowRoom_fields:
  "room_id (windowRoom i l s e) = i"
  "audienceIndex (windowRoom i l s e) = Map.empty"
  by (simp_all add: windowRoom_def)

lemma rsvpOwnerId_phoneProfile:
  "rsvpOwnerId (Some (phoneProfile ''u1'' n)) = ''u1''"
  "profileUserId (Some (phoneProfile ''u1'' n)) = ''u1''"
  "joinUserId (phoneProfile ''u1'' n) = ''u1''"
  by (simp_all add: rsvpOwnerId_def profileUserId_def joinUserId_def phoneProfile_def or_else_def)

text \<open>
  Claim C3. When the stored config of the room has \<open>rsvpOpen\<close> equal to \<open>false\<close>,
  a register call leaves the whole store as it was: no counter moves and neither RSVP
  record is written. A call that reaches the ledger (a resolved session, an upcoming room,
  a reachable store and no active record of the caller) ends with the refusal.
\<close>

theorem closed_room_refuses:
  assumes "rsvp_config db (room_id r) = Some c" and "c ''rsvpOpen'' = Some (JBool False)"
  shows "snd (handleRegisterForSelectedRoom h env pr (Some r) db) = db
       \<and> (rsvpOwnerId (Some p) \<noteq> [] \<and> getRoomState h r (reg_now_guard env) = Upcoming
            \<and> reg_fault env = None \<and> \<not> hasActiveRsvp db (room_id r) (rsvpOwnerId (Some p))
          \<longrightarrow> handleRegisterForSelectedRoom h env (Some p) (Some r) db = (RsvpClosed, db))"
proof (intro conjI impI)
  from stored_closed [OF assms]
  have aborted: "rsvpTransaction h (rsvp_config db (room_id r)) = None" .
  show "snd (handleRegisterForSelectedRoom h env pr (Some r) db) = db"
    by (rule handleRegister_closed_store [OF aborted])
  assume pre: "rsvpOwnerId (Some p) \<noteq> [] \<and> getRoomState h r (reg_now_guard env) = Upcoming
            \<and> reg_fault env = None \<and> \<not> hasActiveRsvp db (room_id r) (rsvpOwnerId (Some p))"
  then have "handleRegisterForSelectedRoom h env (Some p) (Some r) db =
               registerThroughLedger h env p r (rsvpOwnerId (Some p)) db"
    by (intro handleRegister_inactive) simp_all
  with pre show "handleRegisterForSelectedRoom h env (Some p) (Some r) db = (RsvpClosed, db)"
    by (simp add: registerThroughLedger_closed [OF aborted])
qed

theorem closed_room_refuses_witness:
  "handleRegisterForSelectedRoom plainHost
     \<lparr> reg_now_guard = 500, reg_now_write = 501, reg_fault = None \<rparr>
     (Some (phoneProfile ''u1'' ''Asha'')) (Some (windowRoom ''r1'' False 1000 2000))
     (emptyStore\<lparr>rsvp_config := [''r1'' \<mapsto> [''rsvpOpen'' \<mapsto> JBool False]]\<rparr>)
   = (RsvpClosed, emptyStore\<lparr>rsvp_config := [''r1'' \<mapsto> [''rsvpOpen'' \<mapsto> JBool False]]\<rparr>)"
proof -
  let ?db = "emptyStore\<lparr>rsvp_config := [''r1'' \<mapsto> [''rsvpOpen'' \<mapsto> JBool False]]\<rparr>"
  let ?r = "windowRoom ''r1'' False 1000 2000"
  let ?env = "\<lparr> reg_now_guard = 500, reg_now_write = 501, reg_fault = None \<rparr>"
  have a: "rsvp_config ?db (room_id ?r) = Some [''rsvpOpen'' \<mapsto> JBool False]"
    by (simp add: windowRoom_fields)
  have b: "[''rsvpOpen'' \<mapsto> JBool False] ''rsvpOpen'' = Some (JBool False)"
    by simp
  have pre: "rsvpOwnerId (Some (phoneProfile ''u1'' ''Asha'')) \<noteq> []
      \<and> getRoomState plainHost ?r (reg_now_guard ?env) = Upcoming
      \<and> reg_fault ?env = None
      \<and> \<not> hasActiveRsvp ?db (room_id ?r) (rsvpOwnerId (Some (phoneProfile ''u1'' ''Asha'')))"
    by (simp add: rsvpOwnerId_phoneProfile getRoomState_windowRoom resolve_spec_def
        hasActiveRsvp_def emptyStore_def)
  from closed_room_refuses [OF a b, of plainHost ?env "Some (phoneProfile ''u1'' ''Asha'')"
      "phoneProfile ''u1'' ''Asha''"] pre
  show ?thesis by blast
qed

lemma returnedStatus_eq_None:
  "returnedStatus out = None \<longleftrightarrow>
     out \<in> {RegNoOp, SessionUnresolved, RegistrationClosed, RegisterFailed}"
  by (cases out) simp_all

text \<open>
  Claim C4. A register call that finds an active record of the caller for the room
  reports that record's status and leaves the store alone, the ledger included. So of two
  calls in a row for one room and one caller (both made while the room is upcoming and
  the store reachable) the second reports the status the first reported and changes
  nothing: neither counter moves.
\<close>

theorem register_idempotent:
  assumes owner: "rsvpOwnerId (Some p) \<noteq> []"
    and g1: "getRoomState h r (reg_now_guard env1) = Upcoming"
    and g2: "getRoomState h r (reg_now_guard env2) = Upcoming"
    and f1: "reg_fault env1 = None" and f2: "reg_fault env2 = None"
    and first: "handleRegisterForSelectedRoom h env1 (Some p) (Some r) db = (out1, db1)"
    and second: "handleRegisterForSelectedRoom h env2 (Some p) (Some r) db1 = (out2, db2)"
  shows "(\<forall>existing. room_rsvps db (room_id r, rsvpOwnerId (Some p)) = Some existing
                    \<and> isActiveRsvpStatus (rr_status existing)
            \<longrightarrow> out1 = AlreadyActive (rr_status existing) \<and> db1 = db)
       \<and> returnedStatus out1 \<noteq> None
       \<and> returnedStatus out2 = returnedStatus out1
       \<and> db2 = db1
       \<and> rsvp_config db2 (room_id r) = rsvp_config db1 (room_id r)"
proof -
  let ?o = "rsvpOwnerId (Some p)"
  from f1 have f1': "reg_fault env1 \<noteq> Some 1" "reg_fault env1 \<noteq> Some 2" "reg_fault env1 \<noteq> Some 3"
    by simp_all
  from f2 have f2': "reg_fault env2 \<noteq> Some 1" "reg_fault env2 \<noteq> Some 2" "reg_fault env2 \<noteq> Some 3"
    by simp_all
  have short: "out1 = AlreadyActive (rr_status existing) \<and> db1 = db"
    if "room_rsvps db (room_id r, ?o) = Some existing" "isActiveRsvpStatus (rr_status existing)"
    for existing
    using handleRegister_active [OF owner g1 f1'(1) that] first by simp
  have rest: "returnedStatus out1 \<noteq> None \<and> returnedStatus out2 = returnedStatus out1 \<and> db2 = db1"
  proof (cases "hasActiveRsvp db (room_id r) ?o")
    case True
    then obtain existing where ex: "room_rsvps db (room_id r, ?o) = Some existing"
      and act: "isActiveRsvpStatus (rr_status existing)"
      by (auto simp add: hasActiveRsvp_def split: option.splits)
    from short [OF ex act] have o1: "out1 = AlreadyActive (rr_status existing)" and d1: "db1 = db"
      by simp_all
    from handleRegister_active [OF owner g2 f2'(1) ex act] second d1
    have "out2 = AlreadyActive (rr_status existing)" and "db2 = db" by simp_all
    with o1 d1 show ?thesis by simp
  next
    case False
    from handleRegister_inactive [OF owner g1 f1'(1) False] first
    have led1: "registerThroughLedger h env1 p r ?o db = (out1, db1)" by simp
    show ?thesis
    proof (cases "rsvpTransaction h (rsvp_config db (room_id r))")
      case None
      from led1 f1 have o1: "out1 = RsvpClosed" and d1: "db1 = db"
        by (simp_all add: registerThroughLedger_closed [OF None])
      from handleRegister_inactive [OF owner g2 f2'(1) False] second d1
      have "registerThroughLedger h env2 p r ?o db = (out2, db2)" by simp
      with f2 have "out2 = RsvpClosed" and "db2 = db"
        by (simp_all add: registerThroughLedger_closed [OF None])
      with o1 d1 show ?thesis by simp
    next
      case (Some a)
      obtain st cfg where a: "a = (st, cfg)" by (cases a)
      with Some have run: "rsvpTransaction h (rsvp_config db (room_id r)) = Some (st, cfg)" by simp
      from led1 f1 have o1: "out1 = Assigned st"
        and rec: "room_rsvps db1 (room_id r, ?o) =
                    Some \<lparr> rr_status = st, rr_createdAt = reg_now_write env1,
                           rr_phone = p_phone p, rr_displayName = p_displayName p,
                           rr_userId = ?o \<rparr>"
        by (auto simp add: registerThroughLedger_commit [OF run f1'(2)])
      have act: "isActiveRsvpStatus (rr_status \<lparr> rr_status = st, rr_createdAt = reg_now_write env1,
                           rr_phone = p_phone p, rr_displayName = p_displayName p,
                           rr_userId = ?o \<rparr>)"
        using rsvpTransaction_status_active [OF run] by simp
      from handleRegister_active [OF owner g2 f2'(1) rec act] second
      have "out2 = AlreadyActive st" and "db2 = db1" by simp_all
      with o1 show ?thesis by simp
    qed
  qed
  from short rest show ?thesis by blast
qed


lemma one_seat_ledger:
  "rsvpTransaction h (Some [''capacity'' \<mapsto> JNum 1]) =
     Some (RSVP_REGISTERED, (loadConfig (Some [''capacity'' \<mapsto> JNum 1]))(''bookedCount'' \<mapsto> JNum 1))"
proof -
  have "loadConfig (Some [''capacity'' \<mapsto> JNum 1]) ''rsvpOpen'' \<noteq> Some (JBool False)"
    and "capacityOf h (loadConfig (Some [''capacity'' \<mapsto> JNum 1])) = 1"
    and "bookedCountOf h (loadConfig (Some [''capacity'' \<mapsto> JNum 1])) = 0"
    by (simp_all add: loadConfig_apply DEFAULT_RSVP_CONFIG_def capacityOf_def bookedCountOf_def
        number_or0_def)
  then show ?thesis
    using rsvpTransaction_registered [of "Some [''capacity'' \<mapsto> JNum 1]" h] by simp
qed

theorem register_idempotent_witness:
  "returnedStatus (fst (handleRegisterForSelectedRoom plainHost
       \<lparr> reg_now_guard = 500, reg_now_write = 501, reg_fault = None \<rparr>
       (Some (phoneProfile ''u1'' ''Asha'')) (Some (windowRoom ''r1'' False 1000 2000))
       (emptyStore\<lparr>rsvp_config := [''r1'' \<mapsto> [''capacity'' \<mapsto> JNum 1]]\<rparr>)))
     = Some RSVP_REGISTERED
   \<and> returnedStatus (fst (handleRegisterForSelectedRoom plainHost
       \<lparr> reg_now_guard = 600, reg_now_write = 601, reg_fault = None \<rparr>
       (Some (phoneProfile ''u1'' ''Asha'')) (Some (windowRoom ''r1'' False 1000 2000))
       (snd (handleRegisterForSelectedRoom plainHost
          \<lparr> reg_now_guard = 500, reg_now_write = 501, reg_fault = None \<rparr>
          (Some (phoneProfile ''u1'' ''Asha'')) (Some (windowRoom ''r1'' False 1000 2000))
          (emptyStore\<lparr>rsvp_config := [''r1'' \<mapsto> [''capacity'' \<mapsto> JNum 1]]\<rparr>)))))
     = Some RSVP_REGISTERED
   \<and> snd (handleRegisterForSelectedRoom plainHost
       \<lparr> reg_now_guard = 600, reg_now_write = 601, reg_fault = None \<rparr>
       (Some (phoneProfile ''u1'' ''Asha'')) (Some (windowRoom ''r1'' False 1000 2000))
       (snd (handleRegisterForSelectedRoom plainHost
          \<lparr> reg_now_guard = 500, reg_now_write = 501, reg_fault = None \<rparr>
          (Some (phoneProfile ''u1'' ''Asha'')) (Some (windowRoom ''r1'' False 1000 2000))
          (emptyStore\<lparr>rsvp_config := [''r1'' \<mapsto> [''capacity'' \<mapsto> JNum 1]]\<rparr>))))
     = snd (handleRegisterForSelectedRoom plainHost
          \<lparr> reg_now_guard = 500, reg_now_write = 501, reg_fault = None \<rparr>
          (Some (phoneProfile ''u1'' ''Asha'')) (Some (windowRoom ''r1'' False 1000 2000))
          (emptyStore\<lparr>rsvp_config := [''r1'' \<mapsto> [''capacity'' \<mapsto> JNum 1]]\<rparr>))
   \<and> handleRegisterForSelectedRoom plainHost
       \<lparr> reg_now_guard = 500, reg_now_write = 501, reg_fault = None \<rparr>
       (Some (phoneProfile ''u1'' ''Asha'')) (Some (windowRoom ''r1'' False 1000 2000))
       (emptyStore\<lparr>room_rsvps := [(''r1'', ''u1'') \<mapsto>
          \<lparr> rr_status = RSVP_WAITLISTED, rr_createdAt = 100, rr_phone = ''9876543210'',
            rr_displayName = ''Asha'', rr_userId = ''u1'' \<rparr>]\<rparr>)
     = (AlreadyActive RSVP_WAITLISTED,
        emptyStore\<lparr>room_rsvps := [(''r1'', ''u1'') \<mapsto>
          \<lparr> rr_status = RSVP_WAITLISTED, rr_createdAt = 100, rr_phone = ''9876543210'',
            rr_displayName = ''Asha'', rr_userId = ''u1'' \<rparr>]\<rparr>)"
proof -
  let ?db = "emptyStore\<lparr>rsvp_config := [''r1'' \<mapsto> [''capacity'' \<mapsto> JNum 1]]\<rparr>"
  let ?r = "windowRoom ''r1'' False 1000 2000"
  let ?p = "phoneProfile ''u1'' ''Asha''"
  let ?e1 = "\<lparr> reg_now_guard = 500, reg_now_write = 501, reg_fault = None \<rparr>"
  let ?e2 = "\<lparr> reg_now_guard = 600, reg_now_write = 601, reg_fault = None \<rparr>"
  let ?c1 = "handleRegisterForSelectedRoom plainHost ?e1 (Some ?p) (Some ?r) ?db"
  let ?c2 = "handleRegisterForSelectedRoom plainHost ?e2 (Some ?p) (Some ?r) (snd ?c1)"
  have owner: "rsvpOwnerId (Some ?p) \<noteq> []"
    by (simp add: rsvpOwnerId_phoneProfile)
  have g1: "getRoomState plainHost ?r (reg_now_guard ?e1) = Upcoming"
    and g2: "getRoomState plainHost ?r (reg_now_guard ?e2) = Upcoming"
    by (simp_all add: getRoomState_windowRoom resolve_spec_def)
  have f1: "reg_fault ?e1 = None" and f2: "reg_fault ?e2 = None"
    by simp_all
  have first: "?c1 = (fst ?c1, snd ?c1)" and second: "?c2 = (fst ?c2, snd ?c2)"
    by simp_all
  note T = register_idempotent [OF owner g1 g2 f1 f2 first second]
  have inactive: "\<not> hasActiveRsvp ?db (room_id ?r) (rsvpOwnerId (Some ?p))"
    by (simp add: hasActiveRsvp_def emptyStore_def)
  have run: "rsvpTransaction plainHost (rsvp_config ?db (room_id ?r)) =
     Some (RSVP_REGISTERED, (loadConfig (Some [''capacity'' \<mapsto> JNum 1]))(''bookedCount'' \<mapsto> JNum 1))"
    by (simp add: windowRoom_fields one_seat_ledger)
  have "fst ?c1 = Assigned RSVP_REGISTERED"
    unfolding handleRegister_inactive [OF owner g1 _ inactive, simplified]
    by (simp add: registerThroughLedger_commit [OF run])
  then have "returnedStatus (fst ?c1) = Some RSVP_REGISTERED" by simp
  with T have fresh: "returnedStatus (fst ?c1) = Some RSVP_REGISTERED
      \<and> returnedStatus (fst ?c2) = Some RSVP_REGISTERED \<and> snd ?c2 = snd ?c1"
    by simp
  let ?held = "\<lparr> rr_status = RSVP_WAITLISTED, rr_createdAt = 100, rr_phone = ''9876543210'',
                 rr_displayName = ''Asha'', rr_userId = ''u1'' \<rparr>"
  let ?db' = "emptyStore\<lparr>room_rsvps := [(''r1'', ''u1'') \<mapsto> ?held]\<rparr>"
  let ?d1 = "handleRegisterForSelectedRoom plainHost ?e1 (Some ?p) (Some ?r) ?db'"
  let ?d2 = "handleRegisterForSelectedRoom plainHost ?e2 (Some ?p) (Some ?r) (snd ?d1)"
  have first': "?d1 = (fst ?d1, snd ?d1)" and second': "?d2 = (fst ?d2, snd ?d2)"
    by simp_all
  note T' = register_idempotent [OF owner g1 g2 f1 f2 first' second']
  have held: "room_rsvps ?db' (room_id ?r, rsvpOwnerId (Some ?p)) = Some ?held
      \<and> isActiveRsvpStatus (rr_status ?held)"
    by (simp add: windowRoom_fields rsvpOwnerId_phoneProfile active_words)
  from T' held have "fst ?d1 = AlreadyActive (rr_status ?held) \<and> snd ?d1 = ?db'"
    by blast
  then have "?d1 = (AlreadyActive RSVP_WAITLISTED, ?db')"
    by (simp add: prod_eq_iff)
  with fresh show ?thesis by blast
qed

text \<open>Every run of the ledger half writes both records with one status, or neither.\<close>

lemma registerThroughLedger_both_or_neither:
  assumes "registerThroughLedger h env p r owner db = (out, db')"
  shows "(\<exists>st a b. out = Assigned st
            \<and> room_rsvps db' = (room_rsvps db)((room_id r, owner) \<mapsto> a)
            \<and> user_rsvps db' = (user_rsvps db)((owner, room_id r) \<mapsto> b)
            \<and> rr_status a = st \<and> ur_status b = st)
       \<or> ((\<forall>st. out \<noteq> Assigned st)
            \<and> room_rsvps db' = room_rsvps db \<and> user_rsvps db' = user_rsvps db)"
proof (cases "reg_fault env = Some 2")
  case True
  with assms show ?thesis by (auto simp add: registerThroughLedger_def Let_def)
next
  case False
  show ?thesis
  proof (cases "rsvpTransaction h (rsvp_config db (room_id r))")
    case None
    with assms False show ?thesis by (auto simp add: registerThroughLedger_closed)
  next
    case (Some a)
    obtain st cfg where "a = (st, cfg)" by (cases a)
    with Some have run: "rsvpTransaction h (rsvp_config db (room_id r)) = Some (st, cfg)" by simp
    show ?thesis
    proof (cases "reg_fault env = Some 3")
      case True
      with assms have "out = RegisterFailed"
        and "db' = db\<lparr>rsvp_config := (rsvp_config db)(room_id r \<mapsto> cfg)\<rparr>"
        by (simp_all add: registerThroughLedger_commit [OF run False])
      then show ?thesis by simp
    next
      case nofault: False
      let ?a = "\<lparr> rr_status = st, rr_createdAt = reg_now_write env,
                  rr_phone = p_phone p, rr_displayName = p_displayName p,
                  rr_userId = owner \<rparr>"
      let ?b = "\<lparr> ur_status = st, ur_roomId = room_id r,
                  ur_startTimeMs = startTimeMs (getRoomWindow h r),
                  ur_endTimeMs = endTimeMs (getRoomWindow h r),
                  ur_updatedAt = reg_now_write env \<rparr>"
      from assms nofault have o: "out = Assigned st"
        and d: "db' = db\<lparr>rsvp_config := (rsvp_config db)(room_id r \<mapsto> cfg),
                        room_rsvps := (room_rsvps db)((room_id r, owner) \<mapsto> ?a),
                        user_rsvps := (user_rsvps db)((owner, room_id r) \<mapsto> ?b)\<rparr>"
        by (simp_all add: registerThroughLedger_commit [OF run False])
      from d have "room_rsvps db' = (room_rsvps db)((room_id r, owner) \<mapsto> ?a)"
        and "user_rsvps db' = (user_rsvps db)((owner, room_id r) \<mapsto> ?b)"
        by simp_all
      moreover have "rr_status ?a = st" and "ur_status ?b = st" by simp_all
      ultimately have "\<exists>st a b. out = Assigned st
            \<and> room_rsvps db' = (room_rsvps db)((room_id r, owner) \<mapsto> a)
            \<and> user_rsvps db' = (user_rsvps db)((owner, room_id r) \<mapsto> b)
            \<and> rr_status a = st \<and> ur_status b = st"
        using o by blast
      then show ?thesis by blast
    qed
  qed
qed

lemma handleRegister_reaches_ledger:
  assumes "handleRegisterForSelectedRoom h env pr sel db = (out, db')"
  shows "((\<forall>st. out \<noteq> Assigned st) \<and> db' = db)
       \<or> (\<exists>p r. pr = Some p \<and> sel = Some r
               \<and> registerThroughLedger h env p r (rsvpOwnerId pr) db = (out, db'))"
  using assms
  by (auto simp add: handleRegisterForSelectedRoom_def Let_def split: option.splits if_splits)

lemma viewsAgree_written:
  assumes "room_rsvps db' = (room_rsvps db)((rid, own) \<mapsto> a)"
    and "user_rsvps db' = (user_rsvps db)((own, rid) \<mapsto> b)"
    and "rr_status a = ur_status b"
    and "viewsAgree db roomId owner"
  shows "viewsAgree db' roomId owner"
  using assms by (auto simp add: viewsAgree_def split: option.splits)

lemma viewsAgree_untouched:
  assumes "room_rsvps db' = room_rsvps db" and "user_rsvps db' = user_rsvps db"
    and "viewsAgree db roomId owner"
  shows "viewsAgree db' roomId owner"
  using assms(3) unfolding viewsAgree_def assms(1) assms(2) .

text \<open>
  Claim C5. A register call that ends with an assigned status has written the room-side
  record at (room, owner) and the user-side record at (owner, room) together, both with
  that status; every other call leaves both record maps as they were, also when the
  ledger has committed and the multi-key update then fails. So a (room, user) pair whose
  two views agree before a call has views that agree after it.
\<close>

theorem dual_view_written_together:
  assumes run: "handleRegisterForSelectedRoom h env pr sel db = (out, db')"
  shows "(\<forall>st. out = Assigned st \<longrightarrow>
            (\<exists>r a b. sel = Some r
               \<and> room_rsvps db' = (room_rsvps db)((room_id r, rsvpOwnerId pr) \<mapsto> a)
               \<and> user_rsvps db' = (user_rsvps db)((rsvpOwnerId pr, room_id r) \<mapsto> b)
               \<and> rr_status a = st \<and> ur_status b = st))
       \<and> ((\<forall>st. out \<noteq> Assigned st) \<longrightarrow>
            room_rsvps db' = room_rsvps db \<and> user_rsvps db' = user_rsvps db)
       \<and> (viewsAgree db roomId owner \<longrightarrow> viewsAgree db' roomId owner)"
proof -
  from handleRegister_reaches_ledger [OF run]
  consider (same) "\<forall>st. out \<noteq> Assigned st" "db' = db"
    | (ledger) p r where "pr = Some p" "sel = Some r"
        "registerThroughLedger h env p r (rsvpOwnerId pr) db = (out, db')"
    by blast
  then show ?thesis
  proof cases
    case same
    then show ?thesis by simp
  next
    case ledger
    from registerThroughLedger_both_or_neither [OF ledger(3)]
    consider (both) st a b where "out = Assigned st"
        "room_rsvps db' = (room_rsvps db)((room_id r, rsvpOwnerId pr) \<mapsto> a)"
        "user_rsvps db' = (user_rsvps db)((rsvpOwnerId pr, room_id r) \<mapsto> b)"
        "rr_status a = st" "ur_status b = st"
      | (neither) "\<forall>st. out \<noteq> Assigned st"
        "room_rsvps db' = room_rsvps db" "user_rsvps db' = user_rsvps db"
      by blast
    then show ?thesis
    proof cases
      case both
      from both(4,5) have eq: "rr_status a = ur_status b" by simp
      have agree: "viewsAgree db roomId owner \<longrightarrow> viewsAgree db' roomId owner"
        using viewsAgree_written [OF both(2,3) eq] by blast
      from both ledger(2) have "\<exists>r a b. sel = Some r
               \<and> room_rsvps db' = (room_rsvps db)((room_id r, rsvpOwnerId pr) \<mapsto> a)
               \<and> user_rsvps db' = (user_rsvps db)((rsvpOwnerId pr, room_id r) \<mapsto> b)
               \<and> rr_status a = st \<and> ur_status b = st"
        by blast
      with both(1) agree show ?thesis by simp
    next
      case neither
      have "viewsAgree db roomId owner \<longrightarrow> viewsAgree db' roomId owner"
        using viewsAgree_untouched [OF neither(2,3)] by blast
      with neither show ?thesis by simp
    qed
  qed
qed

theorem dual_view_written_together_witness:
  "viewsAgree (emptyStore\<lparr>rsvp_config := [''r1'' \<mapsto> [''capacity'' \<mapsto> JNum 1]]\<rparr>) ''r1'' ''u1''
   \<and> (\<exists>db' a b.
         handleRegisterForSelectedRoom plainHost
           \<lparr> reg_now_guard = 500, reg_now_write = 501, reg_fault = None \<rparr>
           (Some (phoneProfile ''u1'' ''Asha'')) (Some (windowRoom ''r1'' False 1000 2000))
           (emptyStore\<lparr>rsvp_config := [''r1'' \<mapsto> [''capacity'' \<mapsto> JNum 1]]\<rparr>)
         = (Assigned RSVP_REGISTERED, db')
       \<and> room_rsvps db' (''r1'', ''u1'') = Some a \<and> rr_status a = RSVP_REGISTERED
       \<and> user_rsvps db' (''u1'', ''r1'') = Some b \<and> ur_status b = RSVP_REGISTERED
       \<and> viewsAgree db' ''r1'' ''u1'')
   \<and> (\<exists>db'.
         handleRegisterForSelectedRoom plainHost
           \<lparr> reg_now_guard = 500, reg_now_write = 501, reg_fault = Some 3 \<rparr>
           (Some (phoneProfile ''u1'' ''Asha'')) (Some (windowRoom ''r1'' False 1000 2000))
           (emptyStore\<lparr>rsvp_config := [''r1'' \<mapsto> [''capacity'' \<mapsto> JNum 1]]\<rparr>)
         = (RegisterFailed, db')
       \<and> room_rsvps db' (''r1'', ''u1'') = None \<and> user_rsvps db' (''u1'', ''r1'') = None
       \<and> viewsAgree db' ''r1'' ''u1'')"
proof -
  let ?db = "emptyStore\<lparr>rsvp_config := [''r1'' \<mapsto> [''capacity'' \<mapsto> JNum 1]]\<rparr>"
  let ?r = "windowRoom ''r1'' False 1000 2000"
  let ?p = "phoneProfile ''u1'' ''Asha''"
  let ?e = "\<lparr> reg_now_guard = 500, reg_now_write = 501, reg_fault = None \<rparr>"
  let ?c = "handleRegisterForSelectedRoom plainHost ?e (Some ?p) (Some ?r) ?db"
  have owner: "rsvpOwnerId (Some ?p) \<noteq> []"
    by (simp add: rsvpOwnerId_phoneProfile)
  have guard: "getRoomState plainHost ?r (reg_now_guard ?e) = Upcoming"
    by (simp add: getRoomState_windowRoom resolve_spec_def)
  have inactive: "\<not> hasActiveRsvp ?db (room_id ?r) (rsvpOwnerId (Some ?p))"
    by (simp add: hasActiveRsvp_def emptyStore_def)
  have run: "rsvpTransaction plainHost (rsvp_config ?db (room_id ?r)) =
     Some (RSVP_REGISTERED, (loadConfig (Some [''capacity'' \<mapsto> JNum 1]))(''bookedCount'' \<mapsto> JNum 1))"
    by (simp add: windowRoom_fields one_seat_ledger)
  have out: "fst ?c = Assigned RSVP_REGISTERED"
    unfolding handleRegister_inactive [OF owner guard _ inactive, simplified]
    by (simp add: registerThroughLedger_commit [OF run])
  then have call: "?c = (Assigned RSVP_REGISTERED, snd ?c)"
    by (metis prod.collapse)
  have before: "viewsAgree ?db ''r1'' ''u1''"
    by (simp add: viewsAgree_def emptyStore_def)
  note T = dual_view_written_together [OF call, of "''r1''" "''u1''"]
  from T before have after: "viewsAgree (snd ?c) ''r1'' ''u1''" by blast
  from T obtain r a b where "Some ?r = Some r"
    and "room_rsvps (snd ?c) = (room_rsvps ?db)((room_id r, rsvpOwnerId (Some ?p)) \<mapsto> a)"
    and "user_rsvps (snd ?c) = (user_rsvps ?db)((rsvpOwnerId (Some ?p), room_id r) \<mapsto> b)"
    and "rr_status a = RSVP_REGISTERED" and "ur_status b = RSVP_REGISTERED"
    by blast
  then have "room_rsvps (snd ?c) (''r1'', ''u1'') = Some a \<and> rr_status a = RSVP_REGISTERED
       \<and> user_rsvps (snd ?c) (''u1'', ''r1'') = Some b \<and> ur_status b = RSVP_REGISTERED"
    by (auto simp add: windowRoom_fields rsvpOwnerId_phoneProfile)
  with call after before have written: "viewsAgree ?db ''r1'' ''u1''
   \<and> (\<exists>db' a b. ?c = (Assigned RSVP_REGISTERED, db')
       \<and> room_rsvps db' (''r1'', ''u1'') = Some a \<and> rr_status a = RSVP_REGISTERED
       \<and> user_rsvps db' (''u1'', ''r1'') = Some b \<and> ur_status b = RSVP_REGISTERED
       \<and> viewsAgree db' ''r1'' ''u1'')"
    by blast
  let ?e3 = "\<lparr> reg_now_guard = 500, reg_now_write = 501, reg_fault = Some 3 \<rparr>"
  let ?f = "handleRegisterForSelectedRoom plainHost ?e3 (Some ?p) (Some ?r) ?db"
  have guard3: "getRoomState plainHost ?r (reg_now_guard ?e3) = Upcoming"
    by (simp add: getRoomState_windowRoom resolve_spec_def)
  have out3: "fst ?f = RegisterFailed"
    unfolding handleRegister_inactive [OF owner guard3 _ inactive, simplified]
    by (simp add: registerThroughLedger_commit [OF run])
  then have call3: "?f = (RegisterFailed, snd ?f)"
    by (metis prod.collapse)
  note F = dual_view_written_together [OF call3, of "''r1''" "''u1''"]
  from F have "room_rsvps (snd ?f) = room_rsvps ?db \<and> user_rsvps (snd ?f) = user_rsvps ?db"
    by simp
  then have none3: "room_rsvps (snd ?f) (''r1'', ''u1'') = None
      \<and> user_rsvps (snd ?f) (''u1'', ''r1'') = None"
    by (simp add: emptyStore_def)
  from F before have "viewsAgree (snd ?f) ''r1'' ''u1''" by blast
  with call3 none3 have "\<exists>db'. ?f = (RegisterFailed, db')
       \<and> room_rsvps db' (''r1'', ''u1'') = None \<and> user_rsvps db' (''u1'', ''r1'') = None
       \<and> viewsAgree db' ''r1'' ''u1''"
    by blast
  with written show ?thesis by blast
qed

text \<open>
  Claim C10. A register call that finds a record of the caller whose status is not active
  (cancelled, for one) is not short-circuited. On an open room it runs the ledger
  transaction again, which raises the booked count or the waitlist count by 1, and
  replaces the record by one that carries the newly assigned status.
\<close>

theorem inactive_record_registers_again:
  assumes owner: "rsvpOwnerId (Some p) \<noteq> []"
    and guard: "getRoomState h r (reg_now_guard env) = Upcoming"
    and nofault: "reg_fault env = None"
    and existing: "room_rsvps db (room_id r, rsvpOwnerId (Some p)) = Some existing"
    and inactive: "\<not> isActiveRsvpStatus (rr_status existing)"
    and opn: "loadConfig (rsvp_config db (room_id r)) ''rsvpOpen'' \<noteq> Some (JBool False)"
  shows "\<not> isActiveRsvpStatus RSVP_CANCELLED
       \<and> (\<exists>st cfg db' written.
             handleRegisterForSelectedRoom h env (Some p) (Some r) db = (Assigned st, db')
           \<and> rsvpTransaction h (rsvp_config db (room_id r)) = Some (st, cfg)
           \<and> rsvp_config db' (room_id r) = Some cfg
           \<and> (st = RSVP_REGISTERED
                \<and> bookedCountOf h cfg = bookedCountOf h (loadConfig (rsvp_config db (room_id r))) + 1
                \<and> waitlistCountOf h cfg = waitlistCountOf h (loadConfig (rsvp_config db (room_id r)))
              \<or> st = RSVP_WAITLISTED
                \<and> waitlistCountOf h cfg = waitlistCountOf h (loadConfig (rsvp_config db (room_id r))) + 1
                \<and> bookedCountOf h cfg = bookedCountOf h (loadConfig (rsvp_config db (room_id r))))
           \<and> room_rsvps db' (room_id r, rsvpOwnerId (Some p)) = Some written
           \<and> rr_status written = st \<and> rr_createdAt written = reg_now_write env)"
proof -
  let ?o = "rsvpOwnerId (Some p)"
  let ?cur = "rsvp_config db (room_id r)"
  from nofault have nf: "reg_fault env \<noteq> Some 1" "reg_fault env \<noteq> Some 2" by simp_all
  from existing inactive have "\<not> hasActiveRsvp db (room_id r) ?o"
    by (simp add: hasActiveRsvp_def)
  from handleRegister_inactive [OF owner guard nf(1) this]
  have led: "handleRegisterForSelectedRoom h env (Some p) (Some r) db =
               registerThroughLedger h env p r ?o db" .
  from opn obtain st cfg where run: "rsvpTransaction h ?cur = Some (st, cfg)"
    by (cases "rsvpTransaction h ?cur") (auto simp add: rsvpTransaction_None_iff)
  from rsvpTransaction_SomeD [OF run]
  have change: "st = RSVP_REGISTERED
                \<and> bookedCountOf h cfg = bookedCountOf h (loadConfig ?cur) + 1
                \<and> waitlistCountOf h cfg = waitlistCountOf h (loadConfig ?cur)
              \<or> st = RSVP_WAITLISTED
                \<and> waitlistCountOf h cfg = waitlistCountOf h (loadConfig ?cur) + 1
                \<and> bookedCountOf h cfg = bookedCountOf h (loadConfig ?cur)"
    by (auto simp add: counters_after_booking counters_after_waitlist split: if_splits)
  from led nofault
  have "\<exists>db' written. handleRegisterForSelectedRoom h env (Some p) (Some r) db = (Assigned st, db')
           \<and> rsvp_config db' (room_id r) = Some cfg
           \<and> room_rsvps db' (room_id r, ?o) = Some written
           \<and> rr_status written = st \<and> rr_createdAt written = reg_now_write env"
    by (simp add: registerThroughLedger_commit [OF run nf(2)])
  with run change active_words(3) show ?thesis by blast
qed


theorem inactive_record_registers_again_witness:
  "\<exists>db' written.
     handleRegisterForSelectedRoom plainHost
       \<lparr> reg_now_guard = 500, reg_now_write = 501, reg_fault = None \<rparr>
       (Some (phoneProfile ''u1'' ''Asha'')) (Some (windowRoom ''r1'' False 1000 2000))
       (emptyStore\<lparr>rsvp_config := [''r1'' \<mapsto> [''capacity'' \<mapsto> JNum 1]],
                   room_rsvps := [(''r1'', ''u1'') \<mapsto>
                     \<lparr> rr_status = RSVP_CANCELLED, rr_createdAt = 100, rr_phone = ''9876543210'',
                       rr_displayName = ''Asha'', rr_userId = ''u1'' \<rparr>]\<rparr>)
     = (Assigned RSVP_REGISTERED, db')
   \<and> bookedCountOf plainHost (loadConfig (rsvp_config db' ''r1'')) = 1
   \<and> room_rsvps db' (''r1'', ''u1'') = Some written
   \<and> rr_status written = RSVP_REGISTERED \<and> rr_createdAt written = 501"
proof -
  let ?old = "\<lparr> rr_status = RSVP_CANCELLED, rr_createdAt = 100, rr_phone = ''9876543210'',
                rr_displayName = ''Asha'', rr_userId = ''u1'' \<rparr>"
  let ?db = "emptyStore\<lparr>rsvp_config := [''r1'' \<mapsto> [''capacity'' \<mapsto> JNum 1]],
                   room_rsvps := [(''r1'', ''u1'') \<mapsto> ?old]\<rparr>"
  let ?r = "windowRoom ''r1'' False 1000 2000"
  let ?p = "phoneProfile ''u1'' ''Asha''"
  let ?e = "\<lparr> reg_now_guard = 500, reg_now_write = 501, reg_fault = None \<rparr>"
  have owner: "rsvpOwnerId (Some ?p) \<noteq> []"
    by (simp add: rsvpOwnerId_phoneProfile)
  have guard: "getRoomState plainHost ?r (reg_now_guard ?e) = Upcoming"
    by (simp add: getRoomState_windowRoom resolve_spec_def)
  have nofault: "reg_fault ?e = None" by simp
  have existing: "room_rsvps ?db (room_id ?r, rsvpOwnerId (Some ?p)) = Some ?old"
    by (simp add: windowRoom_fields rsvpOwnerId_phoneProfile)
  have inactive: "\<not> isActiveRsvpStatus (rr_status ?old)"
    by (simp add: active_words)
  have cur: "rsvp_config ?db (room_id ?r) = Some [''capacity'' \<mapsto> JNum 1]"
    by (simp add: windowRoom_fields)
  have opn: "loadConfig (rsvp_config ?db (room_id ?r)) ''rsvpOpen'' \<noteq> Some (JBool False)"
    by (simp add: cur loadConfig_apply DEFAULT_RSVP_CONFIG_def)
  from inactive_record_registers_again [OF owner guard nofault existing inactive opn]
  obtain st cfg db' written where
    call: "handleRegisterForSelectedRoom plainHost ?e (Some ?p) (Some ?r) ?db = (Assigned st, db')"
    and run: "rsvpTransaction plainHost (rsvp_config ?db (room_id ?r)) = Some (st, cfg)"
    and stored: "rsvp_config db' (room_id ?r) = Some cfg"
    and rec: "room_rsvps db' (room_id ?r, rsvpOwnerId (Some ?p)) = Some written"
      "rr_status written = st" "rr_createdAt written = reg_now_write ?e"
    by blast
  from run [unfolded cur] have st: "st = RSVP_REGISTERED"
    and cfg: "cfg = (loadConfig (Some [''capacity'' \<mapsto> JNum 1]))(''bookedCount'' \<mapsto> JNum 1)"
    by (simp_all add: one_seat_ledger)
  from stored cfg have "bookedCountOf plainHost (loadConfig (rsvp_config db' ''r1'')) = 1"
    by (simp add: windowRoom_fields loadConfig_stored counters_after_booking)
  with call rec st show ?thesis
    by (auto simp add: windowRoom_fields rsvpOwnerId_phoneProfile)
qed

section \<open>The join handler\<close>

text \<open>A join with a display name and a reachable store, by the state of the index entry.\<close>

lemma handleJoinRoom_index:
  assumes name: "p_displayName p \<noteq> []" and nofault: "join_fault env = None"
    and fs: "(case audience_index db (roomId, joinUserId p) of
                Some e \<Rightarrow> ie_firstSeen e
              | None \<Rightarrow> Some (t_firstSeen env)) = Some f"
  shows "fst (handleJoinRoom env (Some p) roomId db) =
           Entered (push_key env) (joinUserId p) (or_else (p_role p) ''audience'')"
    and "audience_index (snd (handleJoinRoom env (Some p) roomId db)) (roomId, joinUserId p) =
           Some \<lparr> ie_userId = joinUserId p, ie_username = p_displayName p,
                  ie_email = p_email p, ie_phone = p_phone p,
                  ie_role = or_else (p_role p) ''audience'', ie_firstSeen = Some f,
                  ie_lastSeen = t_lastSeen env, ie_lastSessionKey = push_key env \<rparr>"
  using assms by (simp_all add: handleJoinRoom_def Let_def)


lemma handleJoinRoom_existing:
  assumes name: "p_displayName p \<noteq> []" and nofault: "join_fault env = None"
    and entry: "audience_index db (roomId, joinUserId p) = Some e" and seen: "ie_firstSeen e = Some f"
  shows "\<exists>e'. audience_index (snd (handleJoinRoom env (Some p) roomId db)) (roomId, joinUserId p) = Some e'
            \<and> ie_firstSeen e' = Some f \<and> ie_lastSeen e' = t_lastSeen env
            \<and> ie_lastSessionKey e' = push_key env"
proof -
  from entry seen
  have "(case audience_index db (roomId, joinUserId p) of
           Some e \<Rightarrow> ie_firstSeen e | None \<Rightarrow> Some (t_firstSeen env)) = Some f"
    by simp
  from handleJoinRoom_index(2) [OF name nofault this] show ?thesis by simp
qed

lemma handleJoinRoom_fresh:
  assumes name: "p_displayName p \<noteq> []" and nofault: "join_fault env = None"
    and absent: "audience_index db (roomId, joinUserId p) = None"
  shows "\<exists>e'. audience_index (snd (handleJoinRoom env (Some p) roomId db)) (roomId, joinUserId p) = Some e'
            \<and> ie_firstSeen e' = Some (t_firstSeen env) \<and> ie_lastSeen e' = t_lastSeen env
            \<and> ie_lastSessionKey e' = push_key env"
proof -
  from absent
  have "(case audience_index db (roomId, joinUserId p) of
           Some e \<Rightarrow> ie_firstSeen e | None \<Rightarrow> Some (t_firstSeen env)) = Some (t_firstSeen env)"
    by simp
  from handleJoinRoom_index(2) [OF name nofault this] show ?thesis by simp
qed

text \<open>
  Claim C9. A join by a user with a display name, the store reachable: when the room's
  index already has an entry of the user, the entry written keeps that entry's
  \<open>firstSeen\<close> and takes \<open>lastSeen\<close> and \<open>lastSessionKey\<close> from this call; when
  there is none, \<open>firstSeen\<close> is this call's clock reading. So after two joins in a row
  \<open>firstSeen\<close> is what the first join left (its own reading on a fresh index) and
  \<open>lastSeen\<close> and \<open>lastSessionKey\<close> are the second call's.
\<close>

theorem join_keeps_firstSeen:
  assumes name: "p_displayName p \<noteq> []"
    and nofault1: "join_fault env1 = None" and nofault2: "join_fault env2 = None"
  shows "(\<forall>e f. audience_index db (roomId, joinUserId p) = Some e \<and> ie_firstSeen e = Some f \<longrightarrow>
            (\<exists>e'. audience_index (snd (handleJoinRoom env1 (Some p) roomId db)) (roomId, joinUserId p) = Some e'
               \<and> ie_firstSeen e' = Some f \<and> ie_lastSeen e' = t_lastSeen env1
               \<and> ie_lastSessionKey e' = push_key env1)
          \<and> (\<exists>e''. audience_index
                       (snd (handleJoinRoom env2 (Some p) roomId
                          (snd (handleJoinRoom env1 (Some p) roomId db)))) (roomId, joinUserId p) = Some e''
               \<and> ie_firstSeen e'' = Some f \<and> ie_lastSeen e'' = t_lastSeen env2
               \<and> ie_lastSessionKey e'' = push_key env2))
       \<and> (audience_index db (roomId, joinUserId p) = None \<longrightarrow>
            (\<exists>e'. audience_index (snd (handleJoinRoom env1 (Some p) roomId db)) (roomId, joinUserId p) = Some e'
               \<and> ie_firstSeen e' = Some (t_firstSeen env1) \<and> ie_lastSeen e' = t_lastSeen env1
               \<and> ie_lastSessionKey e' = push_key env1)
          \<and> (\<exists>e''. audience_index
                       (snd (handleJoinRoom env2 (Some p) roomId
                          (snd (handleJoinRoom env1 (Some p) roomId db)))) (roomId, joinUserId p) = Some e''
               \<and> ie_firstSeen e'' = Some (t_firstSeen env1) \<and> ie_lastSeen e'' = t_lastSeen env2
               \<and> ie_lastSessionKey e'' = push_key env2))"
proof (intro conjI allI impI)
  fix e f
  assume "audience_index db (roomId, joinUserId p) = Some e \<and> ie_firstSeen e = Some f"
  then have entry: "audience_index db (roomId, joinUserId p) = Some e" and seen: "ie_firstSeen e = Some f"
    by simp_all
  from handleJoinRoom_existing [OF name nofault1 entry seen]
  obtain e' where once: "audience_index (snd (handleJoinRoom env1 (Some p) roomId db)) (roomId, joinUserId p) = Some e'"
    and kept: "ie_firstSeen e' = Some f" and rest: "ie_lastSeen e' = t_lastSeen env1"
      "ie_lastSessionKey e' = push_key env1"
    by blast
  from once kept rest
  show "\<exists>e'. audience_index (snd (handleJoinRoom env1 (Some p) roomId db)) (roomId, joinUserId p) = Some e'
               \<and> ie_firstSeen e' = Some f \<and> ie_lastSeen e' = t_lastSeen env1
               \<and> ie_lastSessionKey e' = push_key env1"
    by blast
  from handleJoinRoom_existing [OF name nofault2 once kept]
  show "\<exists>e''. audience_index
                       (snd (handleJoinRoom env2 (Some p) roomId
                          (snd (handleJoinRoom env1 (Some p) roomId db)))) (roomId, joinUserId p) = Some e''
               \<and> ie_firstSeen e'' = Some f \<and> ie_lastSeen e'' = t_lastSeen env2
               \<and> ie_lastSessionKey e'' = push_key env2" .
next
  assume absent: "audience_index db (roomId, joinUserId p) = None"
  from handleJoinRoom_fresh [OF name nofault1 absent]
  obtain e' where once: "audience_index (snd (handleJoinRoom env1 (Some p) roomId db)) (roomId, joinUserId p) = Some e'"
    and fresh: "ie_firstSeen e' = Some (t_firstSeen env1)" and rest: "ie_lastSeen e' = t_lastSeen env1"
      "ie_lastSessionKey e' = push_key env1"
    by blast
  from once fresh rest
  show "\<exists>e'. audience_index (snd (handleJoinRoom env1 (Some p) roomId db)) (roomId, joinUserId p) = Some e'
               \<and> ie_firstSeen e' = Some (t_firstSeen env1) \<and> ie_lastSeen e' = t_lastSeen env1
               \<and> ie_lastSessionKey e' = push_key env1"
    by blast
  from handleJoinRoom_existing [OF name nofault2 once fresh]
  show "\<exists>e''. audience_index
                       (snd (handleJoinRoom env2 (Some p) roomId
                          (snd (handleJoinRoom env1 (Some p) roomId db)))) (roomId, joinUserId p) = Some e''
               \<and> ie_firstSeen e'' = Some (t_firstSeen env1) \<and> ie_lastSeen e'' = t_lastSeen env2
               \<and> ie_lastSessionKey e'' = push_key env2" .
qed

theorem join_keeps_firstSeen_witness:
  "\<exists>e''. audience_index
            (snd (handleJoinRoom
                    \<lparr> push_key = ''k2'', t_joinedAt = 200, t_firstSeen = 201, t_lastSeen = 202,
                      t_timestamp = 203, t_lastLoginAt = 204, join_fault = None \<rparr>
                    (Some (phoneProfile ''u1'' ''Asha'')) ''r1''
                    (snd (handleJoinRoom
                            \<lparr> push_key = ''k1'', t_joinedAt = 100, t_firstSeen = 101, t_lastSeen = 102,
                              t_timestamp = 103, t_lastLoginAt = 104, join_fault = None \<rparr>
                            (Some (phoneProfile ''u1'' ''Asha'')) ''r1'' emptyStore))))
            (''r1'', ''u1'') = Some e''
      \<and> ie_firstSeen e'' = Some 101 \<and> ie_lastSeen e'' = 202 \<and> ie_lastSessionKey e'' = ''k2''"
proof -
  let ?p = "phoneProfile ''u1'' ''Asha''"
  let ?e1 = "\<lparr> push_key = ''k1'', t_joinedAt = 100, t_firstSeen = 101, t_lastSeen = 102,
                t_timestamp = 103, t_lastLoginAt = 104, join_fault = None \<rparr>"
  let ?e2 = "\<lparr> push_key = ''k2'', t_joinedAt = 200, t_firstSeen = 201, t_lastSeen = 202,
                t_timestamp = 203, t_lastLoginAt = 204, join_fault = None \<rparr>"
  have name: "p_displayName ?p \<noteq> []" by (simp add: phoneProfile_def)
  have f1: "join_fault ?e1 = None" and f2: "join_fault ?e2 = None" by simp_all
  have absent: "audience_index emptyStore (''r1'', joinUserId ?p) = None"
    by (simp add: emptyStore_def)
  from join_keeps_firstSeen [OF name f1 f2, of emptyStore "''r1''"] absent
  have "\<exists>e''. audience_index
                 (snd (handleJoinRoom ?e2 (Some ?p) ''r1''
                    (snd (handleJoinRoom ?e1 (Some ?p) ''r1'' emptyStore)))) (''r1'', joinUserId ?p) = Some e''
               \<and> ie_firstSeen e'' = Some (t_firstSeen ?e1) \<and> ie_lastSeen e'' = t_lastSeen ?e2
               \<and> ie_lastSessionKey e'' = push_key ?e2"
    by blast
  then show ?thesis by (simp add: rsvpOwnerId_phoneProfile)
qed

section \<open>The countdown gate\<close>

lemma gate_still_locked:
  assumes "gate_read_ok env"
    and "getRoomState h (latestRoomOf sel db) (gate_now env) = Upcoming"
  shows "handleLockedTimerFinished h env jenv pr (Some sel) db = (StillLocked, db)"
  using assms by (simp add: handleLockedTimerFinished_def Let_def)

lemma gate_admits_unless_upcoming:
  assumes "gate_read_ok env"
    and "getRoomState h (latestRoomOf sel db) (gate_now env) \<noteq> Upcoming"
  shows "handleLockedTimerFinished h env jenv pr (Some sel) db =
           (Admitted (fst (handleJoinRoom jenv pr (room_id sel) db)),
            snd (handleJoinRoom jenv pr (room_id sel) db))"
  using assms by (simp add: handleLockedTimerFinished_def Let_def split: prod.splits)

lemma phoneProfile_role: "or_else (p_role (phoneProfile u n)) ''audience'' = ''audience''"
  by (simp add: phoneProfile_def or_else_def)

lemma latestRoomOf_stored_window:
  "latestRoomOf (windowRoom ''r1'' False 1000 2000)
     (emptyStore\<lparr>event_config :=
        [''r1'' \<mapsto> [''startTimeMs'' \<mapsto> JNum 1000, ''endTimeMs'' \<mapsto> JNum 2000]]\<rparr>)
   = windowRoom ''r1'' False 1000 2000"
  by (simp add: latestRoomOf_def windowRoom_def emptyStore_def)

text \<open>
  Claim C8 fails on the code. The countdown of a room with the window 1000 to 2000 expires;
  the gate reads the room again at time 2500, when the stored window has ended. The
  recheck resolves the state to ended, and the gate still calls \<open>handleJoinRoom\<close>: the
  user is entered into the room and the session record and index entry are written. The
  gate only holds back a room that is still upcoming.
\<close>

theorem gate_admits_ended_room:
  "getRoomState plainHost
     (latestRoomOf (windowRoom ''r1'' False 1000 2000)
        (emptyStore\<lparr>event_config :=
           [''r1'' \<mapsto> [''startTimeMs'' \<mapsto> JNum 1000, ''endTimeMs'' \<mapsto> JNum 2000]]\<rparr>))
     2500 = Ended
   \<and> fst (handleLockedTimerFinished plainHost \<lparr> gate_now = 2500, gate_read_ok = True \<rparr>
        \<lparr> push_key = ''k1'', t_joinedAt = 2501, t_firstSeen = 2502, t_lastSeen = 2503,
          t_timestamp = 2504, t_lastLoginAt = 2505, join_fault = None \<rparr>
        (Some (phoneProfile ''u1'' ''Asha'')) (Some (windowRoom ''r1'' False 1000 2000))
        (emptyStore\<lparr>event_config :=
           [''r1'' \<mapsto> [''startTimeMs'' \<mapsto> JNum 1000, ''endTimeMs'' \<mapsto> JNum 2000]]\<rparr>))
     = Admitted (Entered ''k1'' ''u1'' ''audience'')"
proof -
  let ?db = "emptyStore\<lparr>event_config :=
           [''r1'' \<mapsto> [''startTimeMs'' \<mapsto> JNum 1000, ''endTimeMs'' \<mapsto> JNum 2000]]\<rparr>"
  let ?sel = "windowRoom ''r1'' False 1000 2000"
  let ?env = "\<lparr> gate_now = 2500, gate_read_ok = True \<rparr>"
  let ?jenv = "\<lparr> push_key = ''k1'', t_joinedAt = 2501, t_firstSeen = 2502, t_lastSeen = 2503,
          t_timestamp = 2504, t_lastLoginAt = 2505, join_fault = None \<rparr>"
  let ?p = "phoneProfile ''u1'' ''Asha''"
  have ended: "getRoomState plainHost (latestRoomOf ?sel ?db) 2500 = Ended"
    by (simp add: latestRoomOf_stored_window getRoomState_windowRoom resolve_spec_def)
  have ok: "gate_read_ok ?env" by simp
  from ended have notup: "getRoomState plainHost (latestRoomOf ?sel ?db) (gate_now ?env) \<noteq> Upcoming"
    by simp
  have name: "p_displayName ?p \<noteq> []" by (simp add: phoneProfile_def)
  have nofault: "join_fault ?jenv = None" by simp
  have fs: "(case audience_index ?db (room_id ?sel, joinUserId ?p) of
                Some e \<Rightarrow> ie_firstSeen e
              | None \<Rightarrow> Some (t_firstSeen ?jenv)) = Some 2502"
    by (simp add: emptyStore_def)
  have "fst (handleJoinRoom ?jenv (Some ?p) (room_id ?sel) ?db) = Entered ''k1'' ''u1'' ''audience''"
    using handleJoinRoom_index(1) [OF name nofault fs]
    by (simp add: rsvpOwnerId_phoneProfile phoneProfile_role)
  then have "fst (handleLockedTimerFinished plainHost ?env ?jenv (Some ?p) (Some ?sel) ?db)
               = Admitted (Entered ''k1'' ''u1'' ''audience'')"
    by (simp add: gate_admits_unless_upcoming [OF ok notup])
  with ended show ?thesis by blast
qed

section \<open>The buckets\<close>

lemma set_insert_by: "set (insert_by cmp x xs) = insert x (set xs)"
  by (induction xs) auto

lemma set_js_sort: "set (js_sort cmp xs) = set xs"
  by (induction xs) (simp_all add: js_sort_def set_insert_by)

lemma set_yourShows:
  "set (yourShows h pr rooms userRsvps nowMs) =
     (if profileUserId pr = [] \<and> rsvpOwnerId pr = [] then {}
      else {r \<in> set rooms. joinedViaAudience pr r \<or> joinedViaRsvp userRsvps r})"
  by (simp add: yourShows_def Let_def set_js_sort)

lemma set_upcomingShows:
  "set (upcomingShows h pr rooms userRsvps nowMs) =
     {r \<in> set rooms. getRoomState h r nowMs = Upcoming
                     \<and> room_id r \<notin> yourSet h pr rooms userRsvps nowMs}"
  by (simp add: upcomingShows_def)

lemma set_currentShows:
  "set (currentShows h pr rooms userRsvps nowMs) =
     {r \<in> set rooms. getRoomState h r nowMs = Current
                     \<and> room_id r \<notin> yourSet h pr rooms userRsvps nowMs}"
  by (simp add: currentShows_def)

lemma yourShows_in_yourSet:
  "r \<in> set (yourShows h pr rooms userRsvps nowMs) \<Longrightarrow> room_id r \<in> yourSet h pr rooms userRsvps nowMs"
  by (simp add: yourSet_def)

lemma yourSet_distinct:
  assumes "distinct (map room_id rooms)" and "r \<in> set rooms"
  shows "room_id r \<in> yourSet h pr rooms userRsvps nowMs
           \<longleftrightarrow> r \<in> set (yourShows h pr rooms userRsvps nowMs)"
proof
  assume "room_id r \<in> yourSet h pr rooms userRsvps nowMs"
  then obtain r' where r': "r' \<in> set (yourShows h pr rooms userRsvps nowMs)" and "room_id r' = room_id r"
    by (auto simp add: yourSet_def)
  moreover from r' have "r' \<in> set rooms"
    by (auto simp add: set_yourShows split: if_splits)
  ultimately have "r' = r"
    using assms by (meson distinct_map inj_onD)
  with r' show "r \<in> set (yourShows h pr rooms userRsvps nowMs)" by simp
next
  assume "r \<in> set (yourShows h pr rooms userRsvps nowMs)"
  then show "room_id r \<in> yourSet h pr rooms userRsvps nowMs" by (rule yourShows_in_yourSet)
qed

lemma buckets_disjoint:
  "set (yourShows h pr rooms u n) \<inter> set (upcomingShows h pr rooms u n) = {}"
  "set (yourShows h pr rooms u n) \<inter> set (currentShows h pr rooms u n) = {}"
  "set (upcomingShows h pr rooms u n) \<inter> set (currentShows h pr rooms u n) = {}"
  using yourShows_in_yourSet [of _ h pr rooms u n]
  by (auto simp add: set_upcomingShows set_currentShows)


lemma someone_signed_in:
  "\<not> (profileUserId (Some (phoneProfile ''u1'' n)) = [] \<and> rsvpOwnerId (Some (phoneProfile ''u1'' n)) = [])"
  by (simp add: rsvpOwnerId_phoneProfile)

lemma visitedRoom_facts:
  "getRoomWindow h (visitedRoom i s e uid) = \<lparr> startTimeMs = s, endTimeMs = e \<rparr>"
  "isLive (visitedRoom i s e uid) = False"
  "room_id (visitedRoom i s e uid) = i"
  "audienceIndex (visitedRoom i s e uid) uid \<noteq> None"
  by (simp_all add: visitedRoom_def getRoomWindow_def windowRoom_def nullish_def)

text \<open>
  Claim C7 fails on the code in two places. The caller \<open>u1\<close> is registered for room
  \<open>r1\<close>, whose window 1000 to 2000 has ended at time 3000: the room is in "yours".
  Room \<open>r2\<close> is upcoming and the caller has no registration for it, but the room's
  audience index has an entry of the caller: the room is in "yours" and not in "upcoming".
\<close>

theorem ended_room_stays_in_yours:
  "getRoomState plainHost (windowRoom ''r1'' False 1000 2000) 3000 = Ended
   \<and> windowRoom ''r1'' False 1000 2000
       \<in> set (yourShows plainHost (Some (phoneProfile ''u1'' ''Asha''))
                [windowRoom ''r1'' False 1000 2000, visitedRoom ''r2'' 5000 6000 ''u1'']
                [''r1'' \<mapsto> rsvpWith ''r1'' RSVP_REGISTERED] 3000)
   \<and> getRoomState plainHost (visitedRoom ''r2'' 5000 6000 ''u1'') 3000 = Upcoming
   \<and> \<not> joinedViaRsvp [''r1'' \<mapsto> rsvpWith ''r1'' RSVP_REGISTERED] (visitedRoom ''r2'' 5000 6000 ''u1'')
   \<and> visitedRoom ''r2'' 5000 6000 ''u1''
       \<in> set (yourShows plainHost (Some (phoneProfile ''u1'' ''Asha''))
                [windowRoom ''r1'' False 1000 2000, visitedRoom ''r2'' 5000 6000 ''u1'']
                [''r1'' \<mapsto> rsvpWith ''r1'' RSVP_REGISTERED] 3000)
   \<and> visitedRoom ''r2'' 5000 6000 ''u1''
       \<notin> set (upcomingShows plainHost (Some (phoneProfile ''u1'' ''Asha''))
                [windowRoom ''r1'' False 1000 2000, visitedRoom ''r2'' 5000 6000 ''u1'']
                [''r1'' \<mapsto> rsvpWith ''r1'' RSVP_REGISTERED] 3000)"
proof -
  let ?r1 = "windowRoom ''r1'' False 1000 2000"
  let ?r2 = "visitedRoom ''r2'' 5000 6000 ''u1''"
  let ?u = "[''r1'' \<mapsto> rsvpWith ''r1'' RSVP_REGISTERED]"
  let ?pr = "Some (phoneProfile ''u1'' ''Asha'')"
  have s1: "getRoomState plainHost ?r1 3000 = Ended"
    by (simp add: getRoomState_windowRoom resolve_spec_def)
  have s2: "getRoomState plainHost ?r2 3000 = Upcoming"
    by (simp add: getRoomState_eq_spec visitedRoom_facts resolve_spec_def)
  have j1: "joinedViaRsvp ?u ?r1"
    by (simp add: joinedViaRsvp_def windowRoom_fields rsvpWith_def active_words)
  have j2: "\<not> joinedViaRsvp ?u ?r2"
    by (simp add: joinedViaRsvp_def visitedRoom_facts active_words)
  have a2: "joinedViaAudience ?pr ?r2"
    by (simp add: joinedViaAudience_def rsvpOwnerId_phoneProfile visitedRoom_facts)
  have y1: "?r1 \<in> set (yourShows plainHost ?pr [?r1, ?r2] ?u 3000)"
    unfolding set_yourShows using j1 someone_signed_in [of "''Asha''"] by simp
  have y2: "?r2 \<in> set (yourShows plainHost ?pr [?r1, ?r2] ?u 3000)"
    unfolding set_yourShows using a2 someone_signed_in [of "''Asha''"] by simp
  from yourShows_in_yourSet [OF y2]
  have "?r2 \<notin> set (upcomingShows plainHost ?pr [?r1, ?r2] ?u 3000)"
    unfolding set_upcomingShows by blast
  with s1 s2 j2 y1 y2 show ?thesis by blast
qed

text \<open>
  Claim C7 as the code has it. The three buckets are pairwise disjoint. "Yours" holds the
  rooms for which the caller (when signed in) has an active registration or an entry in
  the room's audience index, whatever their state, ended rooms included. "Upcoming" holds
  the upcoming rooms and "current" the current rooms whose id is not the id of a room in
  "yours"; an ended room is in neither. With distinct room ids, a room in "yours" is in no
  other bucket, an upcoming room outside "yours" is in "upcoming" only, and a current room
  outside "yours" is in "current" only.
\<close>

theorem buckets_partition:
  "set (yourShows h pr rooms u n) \<inter> set (upcomingShows h pr rooms u n) = {}
   \<and> set (yourShows h pr rooms u n) \<inter> set (currentShows h pr rooms u n) = {}
   \<and> set (upcomingShows h pr rooms u n) \<inter> set (currentShows h pr rooms u n) = {}
   \<and> set (yourShows h pr rooms u n) =
       (if profileUserId pr = [] \<and> rsvpOwnerId pr = [] then {}
        else {r \<in> set rooms. joinedViaAudience pr r \<or> joinedViaRsvp u r})
   \<and> set (upcomingShows h pr rooms u n) =
       {r \<in> set rooms. getRoomState h r n = Upcoming \<and> room_id r \<notin> yourSet h pr rooms u n}
   \<and> set (currentShows h pr rooms u n) =
       {r \<in> set rooms. getRoomState h r n = Current \<and> room_id r \<notin> yourSet h pr rooms u n}
   \<and> (\<forall>r \<in> set rooms. getRoomState h r n = Ended \<longrightarrow>
         r \<notin> set (upcomingShows h pr rooms u n) \<and> r \<notin> set (currentShows h pr rooms u n))
   \<and> (distinct (map room_id rooms) \<longrightarrow>
        (\<forall>r \<in> set rooms.
           (r \<in> set (yourShows h pr rooms u n) \<longrightarrow>
              r \<notin> set (upcomingShows h pr rooms u n) \<and> r \<notin> set (currentShows h pr rooms u n))
         \<and> (r \<notin> set (yourShows h pr rooms u n) \<and> getRoomState h r n = Upcoming \<longrightarrow>
              r \<in> set (upcomingShows h pr rooms u n) \<and> r \<notin> set (currentShows h pr rooms u n))
         \<and> (r \<notin> set (yourShows h pr rooms u n) \<and> getRoomState h r n = Current \<longrightarrow>
              r \<in> set (currentShows h pr rooms u n) \<and> r \<notin> set (upcomingShows h pr rooms u n))))"
proof (intro conjI)
  show "set (yourShows h pr rooms u n) \<inter> set (upcomingShows h pr rooms u n) = {}"
    by (rule buckets_disjoint)
  show "set (yourShows h pr rooms u n) \<inter> set (currentShows h pr rooms u n) = {}"
    by (rule buckets_disjoint)
  show "set (upcomingShows h pr rooms u n) \<inter> set (currentShows h pr rooms u n) = {}"
    by (rule buckets_disjoint)
  show "set (yourShows h pr rooms u n) =
       (if profileUserId pr = [] \<and> rsvpOwnerId pr = [] then {}
        else {r \<in> set rooms. joinedViaAudience pr r \<or> joinedViaRsvp u r})"
    by (rule set_yourShows)
  show "set (upcomingShows h pr rooms u n) =
       {r \<in> set rooms. getRoomState h r n = Upcoming \<and> room_id r \<notin> yourSet h pr rooms u n}"
    by (rule set_upcomingShows)
  show "set (currentShows h pr rooms u n) =
       {r \<in> set rooms. getRoomState h r n = Current \<and> room_id r \<notin> yourSet h pr rooms u n}"
    by (rule set_currentShows)
  show "\<forall>r \<in> set rooms. getRoomState h r n = Ended \<longrightarrow>
         r \<notin> set (upcomingShows h pr rooms u n) \<and> r \<notin> set (currentShows h pr rooms u n)"
    by (simp add: set_upcomingShows set_currentShows)
  show "distinct (map room_id rooms) \<longrightarrow>
        (\<forall>r \<in> set rooms.
           (r \<in> set (yourShows h pr rooms u n) \<longrightarrow>
              r \<notin> set (upcomingShows h pr rooms u n) \<and> r \<notin> set (currentShows h pr rooms u n))
         \<and> (r \<notin> set (yourShows h pr rooms u n) \<and> getRoomState h r n = Upcoming \<longrightarrow>
              r \<in> set (upcomingShows h pr rooms u n) \<and> r \<notin> set (currentShows h pr rooms u n))
         \<and> (r \<notin> set (yourShows h pr rooms u n) \<and> getRoomState h r n = Current \<longrightarrow>
              r \<in> set (currentShows h pr rooms u n) \<and> r \<notin> set (upcomingShows h pr rooms u n)))"
  proof (intro impI ballI)
    fix r
    assume d: "distinct (map room_id rooms)" and r: "r \<in> set rooms"
    note ys = yourSet_distinct [OF d r, of h pr u n]
    from r ys show "(r \<in> set (yourShows h pr rooms u n) \<longrightarrow>
              r \<notin> set (upcomingShows h pr rooms u n) \<and> r \<notin> set (currentShows h pr rooms u n))
         \<and> (r \<notin> set (yourShows h pr rooms u n) \<and> getRoomState h r n = Upcoming \<longrightarrow>
              r \<in> set (upcomingShows h pr rooms u n) \<and> r \<notin> set (currentShows h pr rooms u n))
         \<and> (r \<notin> set (yourShows h pr rooms u n) \<and> getRoomState h r n = Current \<longrightarrow>
              r \<in> set (currentShows h pr rooms u n) \<and> r \<notin> set (upcomingShows h pr rooms u n))"
      by (simp add: set_upcomingShows set_currentShows)
  qed
qed

theorem buckets_partition_witness:
  "windowRoom ''b'' False 5000 6000
     \<in> set (yourShows plainHost (Some (phoneProfile ''u1'' ''Asha''))
              [windowRoom ''a'' True 0 0, windowRoom ''b'' False 5000 6000, windowRoom ''c'' False 5000 6000]
              [''b'' \<mapsto> rsvpWith ''b'' RSVP_REGISTERED] 3000)
   \<and> windowRoom ''b'' False 5000 6000
     \<notin> set (upcomingShows plainHost (Some (phoneProfile ''u1'' ''Asha''))
              [windowRoom ''a'' True 0 0, windowRoom ''b'' False 5000 6000, windowRoom ''c'' False 5000 6000]
              [''b'' \<mapsto> rsvpWith ''b'' RSVP_REGISTERED] 3000)
   \<and> windowRoom ''c'' False 5000 6000
     \<in> set (upcomingShows plainHost (Some (phoneProfile ''u1'' ''Asha''))
              [windowRoom ''a'' True 0 0, windowRoom ''b'' False 5000 6000, windowRoom ''c'' False 5000 6000]
              [''b'' \<mapsto> rsvpWith ''b'' RSVP_REGISTERED] 3000)
   \<and> windowRoom ''c'' False 5000 6000
     \<notin> set (currentShows plainHost (Some (phoneProfile ''u1'' ''Asha''))
              [windowRoom ''a'' True 0 0, windowRoom ''b'' False 5000 6000, windowRoom ''c'' False 5000 6000]
              [''b'' \<mapsto> rsvpWith ''b'' RSVP_REGISTERED] 3000)
   \<and> windowRoom ''a'' True 0 0
     \<in> set (currentShows plainHost (Some (phoneProfile ''u1'' ''Asha''))
              [windowRoom ''a'' True 0 0, windowRoom ''b'' False 5000 6000, windowRoom ''c'' False 5000 6000]
              [''b'' \<mapsto> rsvpWith ''b'' RSVP_REGISTERED] 3000)
   \<and> windowRoom ''a'' True 0 0
     \<notin> set (upcomingShows plainHost (Some (phoneProfile ''u1'' ''Asha''))
              [windowRoom ''a'' True 0 0, windowRoom ''b'' False 5000 6000, windowRoom ''c'' False 5000 6000]
              [''b'' \<mapsto> rsvpWith ''b'' RSVP_REGISTERED] 3000)"
proof -
  let ?a = "windowRoom ''a'' True 0 0"
  let ?b = "windowRoom ''b'' False 5000 6000"
  let ?c = "windowRoom ''c'' False 5000 6000"
  let ?rooms = "[?a, ?b, ?c]"
  let ?u = "[''b'' \<mapsto> rsvpWith ''b'' RSVP_REGISTERED]"
  let ?pr = "Some (phoneProfile ''u1'' ''Asha'')"
  note T = buckets_partition [of plainHost ?pr ?rooms ?u 3000]
  have d: "distinct (map room_id ?rooms)"
    by (simp add: windowRoom_fields)
  have mem: "?a \<in> set ?rooms" "?b \<in> set ?rooms" "?c \<in> set ?rooms"
    by simp_all
  have st: "getRoomState plainHost ?a 3000 = Current" "getRoomState plainHost ?b 3000 = Upcoming"
    "getRoomState plainHost ?c 3000 = Upcoming"
    by (simp_all add: getRoomState_windowRoom resolve_spec_def)
  have jb: "joinedViaRsvp ?u ?b"
    by (simp add: joinedViaRsvp_def windowRoom_fields rsvpWith_def active_words)
  have nj: "\<not> joinedViaRsvp ?u ?a" "\<not> joinedViaRsvp ?u ?c"
    "\<not> joinedViaAudience ?pr ?a" "\<not> joinedViaAudience ?pr ?c"
    by (simp_all add: joinedViaRsvp_def joinedViaAudience_def windowRoom_fields active_words)
  from T have ys: "set (yourShows plainHost ?pr ?rooms ?u 3000) =
       {r \<in> set ?rooms. joinedViaAudience ?pr r \<or> joinedViaRsvp ?u r}"
    using someone_signed_in [of "''Asha''"] by simp
  from ys jb mem have yb: "?b \<in> set (yourShows plainHost ?pr ?rooms ?u 3000)" by blast
  from ys nj have ya: "?a \<notin> set (yourShows plainHost ?pr ?rooms ?u 3000)"
    and yc: "?c \<notin> set (yourShows plainHost ?pr ?rooms ?u 3000)" by blast+
  from T d have each: "\<forall>r \<in> set ?rooms.
           (r \<in> set (yourShows plainHost ?pr ?rooms ?u 3000) \<longrightarrow>
              r \<notin> set (upcomingShows plainHost ?pr ?rooms ?u 3000)
              \<and> r \<notin> set (currentShows plainHost ?pr ?rooms ?u 3000))
         \<and> (r \<notin> set (yourShows plainHost ?pr ?rooms ?u 3000) \<and> getRoomState plainHost r 3000 = Upcoming \<longrightarrow>
              r \<in> set (upcomingShows plainHost ?pr ?rooms ?u 3000)
              \<and> r \<notin> set (currentShows plainHost ?pr ?rooms ?u 3000))
         \<and> (r \<notin> set (yourShows plainHost ?pr ?rooms ?u 3000) \<and> getRoomState plainHost r 3000 = Current \<longrightarrow>
              r \<in> set (currentShows plainHost ?pr ?rooms ?u 3000)
              \<and> r \<notin> set (upcomingShows plainHost ?pr ?rooms ?u 3000))"
    by blast
  from each mem(1) ya st(1) have "?a \<in> set (currentShows plainHost ?pr ?rooms ?u 3000)"
    and "?a \<notin> set (upcomingShows plainHost ?pr ?rooms ?u 3000)" by blast+
  moreover from each mem(2) yb have "?b \<notin> set (upcomingShows plainHost ?pr ?rooms ?u 3000)" by blast
  moreover from each mem(3) yc st(3) have "?c \<in> set (upcomingShows plainHost ?pr ?rooms ?u 3000)"
    and "?c \<notin> set (currentShows plainHost ?pr ?rooms ?u 3000)" by blast+
  ultimately show ?thesis using yb by blast
qed

end
